theory Spec2Isabelle
  imports Complex_Main
begin

section \<open>Numbers, errors and arrays\<close>

text \<open>
  The program is \<^verbatim>\<open>cmaputil.py\<close>. Its numbers are IEEE double precision floats. A finite
  float is modelled by the real number it denotes and every operation on finite floats is
  exact (no rounding, no overflow); the three non-finite floats are values of their own,
  because \<^verbatim>\<open>_valid_rgb\<close> tests for them. What is proved below is therefore about the
  program's control flow and its arithmetic over the reals, not about rounding.
\<close>

datatype npfloat = Finite real | PosInf | NegInf | NaN

text \<open>\<^verbatim>\<open>np.isfinite(num)\<close>.\<close>

fun isfinite :: "npfloat \<Rightarrow> bool" where
  "isfinite (Finite x) = True"
| "isfinite PosInf = False"
| "isfinite NegInf = False"
| "isfinite NaN = False"

text \<open>The comparison \<^verbatim>\<open>x < y\<close> of two floats: every comparison with NaN is false.\<close>

fun np_less :: "npfloat \<Rightarrow> npfloat \<Rightarrow> bool" where
  "np_less (Finite x) (Finite y) = (x < y)"
| "np_less (Finite x) PosInf = True"
| "np_less NegInf (Finite y) = True"
| "np_less NegInf PosInf = True"
| "np_less _ _ = False"

text \<open>The exceptions of Python that the modelled code can raise.\<close>

datatype py_error = IndexError | ValueError | TypeError | LinAlgError

section \<open>Math functions\<close>

text \<open>
  \<^verbatim>\<open>
  def _valid_rgb(num, e=0.001):
      return np.isfinite(num) and num < (1 + e) and num > -e
  \<close>
\<close>

definition valid_rgb :: "npfloat \<Rightarrow> real \<Rightarrow> bool" where
  "valid_rgb num e \<longleftrightarrow>
     isfinite num \<and> np_less num (Finite (1 + e)) \<and> np_less (Finite (- e)) num"

text \<open>
  \<^verbatim>\<open>
  def _find_distance(p1, p2):
      if len(p1) != len(p2):
          return ValueError
      val = 0
      for i in range(len(p1)):
          val += (p2[i] - p1[i]) ** 2
      return sqrt(val)
  \<close>
  The function returns either a float or, on a length mismatch, the class object
  \<^verbatim>\<open>ValueError\<close> itself; it has no \<^verbatim>\<open>raise\<close>. So its result is a Python value of one of
  two kinds, and the model never yields an exception for it.
\<close>

datatype py_value = Float real | ExcClass py_error

definition find_distance :: "real list \<Rightarrow> real list \<Rightarrow> py_value" where
  "find_distance p1 p2 =
     (if length p1 \<noteq> length p2 then ExcClass ValueError
      else Float (sqrt (fold (\<lambda>i val. val + (p2 ! i - p1 ! i) ^ 2) [0..<length p1] 0)))"

section \<open>The bound finder\<close>

text \<open>
  An array of floats is modelled up to two dimensions: a one-dimensional array by the list
  of its elements, a two-dimensional array by the list of its rows, all of one length (its
  number of columns). An array with no row is taken to have no column.
\<close>

datatype ndarray = Vec "real list" | Mat "real list list"

fun ncols :: "real list list \<Rightarrow> nat" where
  "ncols [] = 0"
| "ncols (r # rs) = length r"

text \<open>
  \<^verbatim>\<open>cspace_convert\<close> belongs to the library colorspacious, not to this program: it is a
  parameter \<open>cv\<close> of the model, the function from the three entries of the list
  \<^verbatim>\<open>[j, a, b]\<close> to the three components of the converted colour. The program passes for
  \<^verbatim>\<open>a\<close> and \<^verbatim>\<open>b\<close> either two numbers or two whole rows of an array, whence the type
  \<open>chroma\<close>. The converter is taken to return; an exception of the library is not
  modelled.
\<close>

datatype chroma = Scalar real | Row "real list"

type_synonym converter = "real \<Rightarrow> chroma \<Rightarrow> chroma \<Rightarrow> npfloat \<times> npfloat \<times> npfloat"

text \<open>
  \<^verbatim>\<open>
  def _find_J_bounds(j, a, b):
      test_rgb = cspace_convert([j, a, b], CSPACE2, CSPACE1)
      if _valid_rgb(test_rgb[0]) and _valid_rgb(test_rgb[1]) and \
         _valid_rgb(test_rgb[2]):
          return True
      return False
  \<close>
\<close>

definition find_J_bounds' :: "converter \<Rightarrow> real \<Rightarrow> chroma \<Rightarrow> chroma \<Rightarrow> bool" where
  "find_J_bounds' cv j a b =
     (case cv j a b of
        (r, g, bl) \<Rightarrow>
          valid_rgb r (1 / 1000) \<and> valid_rgb g (1 / 1000) \<and> valid_rgb bl (1 / 1000))"

text \<open>
  The scan of one pair, which \<^verbatim>\<open>find_J_bounds\<close> writes twice (once in each branch):
  \<^verbatim>\<open>
  while J <= maxJ:
      if _find_J_bounds(J, a, b):
          passed.append(J)
      while _find_J_bounds(J + 5, a, b):
          passed.append(J)
          J += 5
      J += 0.1
  \<close>
  \<open>coarse_steps\<close> is the inner loop and returns the final \<open>J\<close> and \<open>passed\<close>;
  \<open>scan_J\<close> is the outer loop and returns the final \<open>passed\<close>. Nothing bounds the inner
  loop but the converter, so both are partial: \<open>None\<close> is a loop that never ends.
\<close>

partial_function (option) coarse_steps ::
  "converter \<Rightarrow> chroma \<Rightarrow> chroma \<Rightarrow> real \<Rightarrow> real list \<Rightarrow> (real \<times> real list) option" where
  "coarse_steps cv a b J passed =
     (if find_J_bounds' cv (J + 5) a b
      then coarse_steps cv a b (J + 5) (passed @ [J])
      else Some (J, passed))"

partial_function (option) scan_J ::
  "converter \<Rightarrow> chroma \<Rightarrow> chroma \<Rightarrow> real \<Rightarrow> real \<Rightarrow> real list \<Rightarrow> real list option" where
  "scan_J cv a b maxJ J passed =
     (if J \<le> maxJ
      then Option.bind
             (coarse_steps cv a b J (if find_J_bounds' cv J a b then passed @ [J] else passed))
             (\<lambda>(J', passed'). scan_J cv a b maxJ (J' + 1 / 10) passed')
      else Some passed)"

text \<open>
  The loop over the columns of the first branch, on the list of the pairs
  \<^verbatim>\<open>(m[1, i], m[2, i])\<close> still to visit and the running \<^verbatim>\<open>minJ\<close> and \<^verbatim>\<open>maxJ\<close>:
  \<^verbatim>\<open>
  for i in range(m.shape[1]):
      a = m[1, i]
      b = m[2, i]
      passed = []
      J = minJ
      while J <= maxJ: ...
      if len(passed) > 0:
          minJ = max(minJ, min(passed))
          maxJ = min(maxJ, max(passed))
  \<close>
\<close>

fun pairs_loop ::
  "converter \<Rightarrow> (real \<times> real) list \<Rightarrow> real \<Rightarrow> real \<Rightarrow> (real \<times> real) option" where
  "pairs_loop cv [] minJ maxJ = Some (minJ, maxJ)"
| "pairs_loop cv ((a, b) # ps) minJ maxJ =
     Option.bind (scan_J cv (Scalar a) (Scalar b) maxJ minJ [])
       (\<lambda>passed.
          if length passed > 0
          then pairs_loop cv ps (max minJ (Min (set passed))) (min maxJ (Max (set passed)))
          else pairs_loop cv ps minJ maxJ)"

text \<open>
  \<^verbatim>\<open>
  def find_J_bounds(data, report=True):
      if type(data) == str:
          _, m = get_rgb_jab(data)
      else:
          m = np.copy(data)
      minJ = 0
      maxJ = 100
      # possible bug here when len(m.shape) == 1?
      if m.shape[1] > 3:
          for i in range(m.shape[1]): ...
      else:
          a = m[1]
          b = m[2]
          passed = []
          J = 0.5
          while J <= 100: ...
          minJ = min(passed)
          maxJ = max(passed)
      if report:
          print('Passed: ' + str([minJ, maxJ]))
      return minJ, maxJ
  \<close>
  The model takes the array (a colormap name is looked up in a registry that is not part
  of the program) and leaves the printing out. The result is \<open>None\<close> when a loop never
  ends, \<open>Some (Inl e)\<close> when the exception \<open>e\<close> is raised and \<open>Some (Inr (minJ, maxJ))\<close>
  when the pair is returned; the function has no other way to return. \<^verbatim>\<open>m.shape[1]\<close> of
  a one-dimensional array, \<^verbatim>\<open>m[2]\<close> and \<^verbatim>\<open>m[2, i]\<close> of an array with fewer than three
  rows raise IndexError, \<^verbatim>\<open>min\<close> of the empty list raises ValueError.
\<close>

definition find_J_bounds :: "converter \<Rightarrow> ndarray \<Rightarrow> (py_error + real \<times> real) option" where
  "find_J_bounds cv data =
     (case data of
        Vec v \<Rightarrow> Some (Inl IndexError)
      | Mat m \<Rightarrow>
          if ncols m > 3
          then (if length m < 3 then Some (Inl IndexError)
                else map_option Inr (pairs_loop cv (zip (m ! 1) (m ! 2)) 0 100))
          else (if length m < 3 then Some (Inl IndexError)
                else Option.bind (scan_J cv (Row (m ! 1)) (Row (m ! 2)) 100 (1 / 2) [])
                       (\<lambda>passed.
                          if passed = [] then Some (Inl ValueError)
                          else Some (Inr (Min (set passed), Max (set passed))))))"

section \<open>The linear fit engine\<close>

text \<open>
  A function that may raise and may run forever returns \<open>None\<close> when it does not end,
  \<open>Some (Inl e)\<close> when it raises \<open>e\<close> and \<open>Some (Inr v)\<close> when it returns \<open>v\<close>.
  \<open>bind_res\<close> runs a second computation on the value of a first one that returned.
\<close>

definition bind_res ::
  "(py_error + 'a) option \<Rightarrow> ('a \<Rightarrow> (py_error + 'b) option) \<Rightarrow> (py_error + 'b) option" where
  "bind_res r f = (case r of None \<Rightarrow> None | Some (Inl e) \<Rightarrow> Some (Inl e) | Some (Inr v) \<Rightarrow> f v)"

text \<open>\<^verbatim>\<open>m[:, i]\<close>, the column \<open>i\<close> of a two-dimensional array, and \<^verbatim>\<open>range(256)\<close>.\<close>

definition column :: "real list list \<Rightarrow> nat \<Rightarrow> real list" where
  "column m i = map (\<lambda>r. r ! i) m"

definition range256 :: "real list" where
  "range256 = map real [0..<256]"

text \<open>
  numpy is not part of the program. \<^verbatim>\<open>np.polyfit(x, y, 1)\<close> and
  \<^verbatim>\<open>np.linalg.lstsq\<close> on the matrix of the columns \<open>x\<close> and 1 both compute the
  least-squares line through the points \<open>(x, y)\<close>: \<open>lstsq_line\<close> is its slope and its
  intercept by the normal equations, in exact arithmetic. \<^verbatim>\<open>np.linspace(start, stop, num)\<close>
  is the list of \<open>num\<close> evenly spaced values from \<open>start\<close> to \<open>stop\<close>.
\<close>

definition lstsq_line :: "real list \<Rightarrow> real list \<Rightarrow> real \<times> real" where
  "lstsq_line xs ys =
     (let n = real (length xs);
          sx = sum_list xs;
          sy = sum_list ys;
          sxx = (\<Sum>x\<leftarrow>xs. x * x);
          sxy = (\<Sum>(x, y)\<leftarrow>zip xs ys. x * y);
          slope = (n * sxy - sx * sy) / (n * sxx - sx * sx)
      in (slope, (sy - slope * sx) / n))"

definition linspace :: "real \<Rightarrow> real \<Rightarrow> nat \<Rightarrow> real list" where
  "linspace start stop num =
     map (\<lambda>i. start + real i * ((stop - start) / real (num - 1))) [0..<num]"

text \<open>
  \<^verbatim>\<open>
  def lin_fit(y):
      x = range(256)
      x = np.vstack([x, np.ones(len(x))]).T
      a, _, _, _ = np.linalg.lstsq(x, y)
      return (a * x)[:, 0]
  \<close>
  \<^verbatim>\<open>a * x\<close> multiplies the column of the \<open>x\<close> values by the slope and the column of ones
  by the intercept; the result is the first column, the slope times \<open>x\<close>. \<^verbatim>\<open>lstsq\<close> raises
  LinAlgError unless \<open>y\<close> has 256 entries.
\<close>

definition lin_fit :: "real list \<Rightarrow> py_error + real list" where
  "lin_fit y =
     (if length y \<noteq> 256 then Inl LinAlgError
      else Inr (map (\<lambda>x. fst (lstsq_line range256 y) * x) range256))"

text \<open>
  Method 1 of \<^verbatim>\<open>correct_J\<close>, on the row \<open>J = m[0, :]\<close>:
  \<^verbatim>\<open>
  slope, b = np.polyfit(range(256), m[0, :], 1)
  line_fit = slope * np.copy(range(256)) + b
  if max(line_fit) > 99:
      temp = list(m[0, :] - 99)
      line_fit = lin_fit(temp) + (99 - np.max(lin_fit(temp)))
      if min(line_fit) < 1:
          if line_fit[0] < line_fit[-1]:
              line_fit = np.linspace(1, 99, 256)
          else:
              line_fit = np.linspace(99, 1, 256)
  \<close>
  \<^verbatim>\<open>np.polyfit\<close> raises TypeError unless the row has 256 entries. \<open>first_fit\<close> is the
  line of the first assignment to \<^verbatim>\<open>line_fit\<close>, \<open>method1\<close> the final one.
\<close>

definition first_fit :: "real list \<Rightarrow> real list" where
  "first_fit J = (case lstsq_line range256 J of (slope, b) \<Rightarrow> map (\<lambda>x. slope * x + b) range256)"

definition method1 :: "real list \<Rightarrow> py_error + real list" where
  "method1 J =
     (if length J \<noteq> 256 then Inl TypeError
      else if Max (set (first_fit J)) > 99
      then (case lin_fit (map (\<lambda>v. v - 99) J) of
              Inl e \<Rightarrow> Inl e
            | Inr lf \<Rightarrow>
                let line_fit = map (\<lambda>v. v + (99 - Max (set lf))) lf
                in if Min (set line_fit) < 1
                   then (if hd line_fit < last line_fit then Inr (linspace 1 99 256)
                         else Inr (linspace 99 1 256))
                   else Inr line_fit)
      else Inr (first_fit J))"

text \<open>
  \<^verbatim>\<open>
  def _correct_J(low, high, line, m):
      test_upper = [x for x in high - line if x < 0]
      test_lower = [x for x in line - low if x < 0]
      if len(test_upper) + len(test_lower) == 0:
          m = np.copy(m)
          m[0, :] = line
          return m
      else:
          return None
  \<close>
  The three arrays have one length where the function is called.
\<close>

definition correct_J' ::
  "real list \<Rightarrow> real list \<Rightarrow> real list \<Rightarrow> real list list \<Rightarrow> real list list option" where
  "correct_J' low high line m =
     (let test_upper = filter (\<lambda>x. x < 0) (map2 (-) high line);
          test_lower = filter (\<lambda>x. x < 0) (map2 (-) line low)
      in if length test_upper + length test_lower = 0 then Some (m[0 := line]) else None)"

text \<open>
  Method 2 of \<^verbatim>\<open>correct_J\<close>, the two nested loops:
  \<^verbatim>\<open>
  max_b = max(high[0], high[-1])
  while slope != 0:
      b = low[0]
      while b <= max_b:
          line_fit = (slope / 256.0) * np.asarray(range(256)) + b
          m2 = _correct_J(low, high, line_fit, m)
          if m2 is not None:
              plot_linear_Js(low, high, m1, m2, name=name)
              return m1, m2
          elif line_fit[-1] > high[-1] or line_fit[0] > high[0]:
              b = 100
          else:
              b += delta_b
      slope += delta_slope
  plot_linear_Js(low, high, m1, None, name=name)
  return m1, None
  \<close>
  \<open>search_b\<close> is the inner loop from the current \<open>b\<close> on, \<open>search_slope\<close> the outer loop
  from the current \<open>slope\<close> on. Each returns \<open>Some (Some m2)\<close> when a line is found,
  \<open>Some None\<close> when it ends without one and \<open>None\<close> when it never ends. The plots are
  left out.
\<close>

partial_function (option) search_b ::
  "real list \<Rightarrow> real list \<Rightarrow> real list list \<Rightarrow> real \<Rightarrow> real \<Rightarrow> real \<Rightarrow> real \<Rightarrow>
   real list list option option" where
  "search_b low high m slope max_b delta_b b =
     (if b \<le> max_b
      then (let line_fit = map (\<lambda>x. (slope / 256) * x + b) range256
            in case correct_J' low high line_fit m of
                 Some m2 \<Rightarrow> Some (Some m2)
               | None \<Rightarrow>
                   if last line_fit > last high \<or> hd line_fit > hd high
                   then search_b low high m slope max_b delta_b 100
                   else search_b low high m slope max_b delta_b (b + delta_b))
      else Some None)"

partial_function (option) search_slope ::
  "real list \<Rightarrow> real list \<Rightarrow> real list list \<Rightarrow> real \<Rightarrow> real \<Rightarrow> real \<Rightarrow> real \<Rightarrow>
   real list list option option" where
  "search_slope low high m max_b delta_slope delta_b slope =
     (if slope \<noteq> 0
      then Option.bind (search_b low high m slope max_b delta_b (hd low))
             (\<lambda>found. case found of
                Some m2 \<Rightarrow> Some (Some m2)
              | None \<Rightarrow> search_slope low high m max_b delta_slope delta_b (slope + delta_slope))
      else Some None)"

text \<open>
  The loop of \<^verbatim>\<open>correct_J\<close> that collects the bounds of every column, over the indices
  still to visit. The argument of \<^verbatim>\<open>find_J_bounds\<close> is the one-dimensional array
  \<^verbatim>\<open>m[:, i]\<close>:
  \<^verbatim>\<open>
  for i in range(l):
      l, h = find_J_bounds(m[:, i], report=False)
      low[i], high[i] = l, h
  \<close>
\<close>

fun bounds_loop ::
  "converter \<Rightarrow> real list list \<Rightarrow> nat list \<Rightarrow> (py_error + real list \<times> real list) option" where
  "bounds_loop cv m [] = Some (Inr ([], []))"
| "bounds_loop cv m (i # is) =
     bind_res (find_J_bounds cv (Vec (column m i)))
       (\<lambda>(l, h). bind_res (bounds_loop cv m is)
          (\<lambda>(low, high). Some (Inr (l # low, h # high))))"

text \<open>
  \<^verbatim>\<open>
  def correct_J(m, name=None, delta_slope=1, delta_b=1):
      l = m.shape[1]
      high = np.zeros((l))
      low = np.zeros((l))
      for i in range(l): ...
      # Method 1: Fit to existing line
      m1 = np.copy(m)
      ...
      m1[0, :] = line_fit
      # Method 2: Maximize change in J
      m2 = None
      if m[0, 0] <= m[0, -1]:
          delta_slope = -abs(delta_slope)
          slope = high[-1] - low[0]
          if slope < 0:
              plot_linear_Js(low, high, m1, None, name=name)
              return m1, None
      else:
          delta_slope = abs(delta_slope)
          slope = low[-1] - high[0]
          if slope > 0:
              plot_linear_Js(low, high, m1, None, name=name)
              return m1, None
      max_b = max(high[0], high[-1])
      while slope != 0: ...
  \<close>
  The result is the pair of \<^verbatim>\<open>m1\<close> and \<^verbatim>\<open>m2\<close>, where \<open>None\<close> for \<^verbatim>\<open>m2\<close> is Python's
  \<^verbatim>\<open>None\<close>.
\<close>

definition correct_J ::
  "converter \<Rightarrow> real list list \<Rightarrow> real \<Rightarrow> real \<Rightarrow>
   (py_error + real list list \<times> real list list option) option" where
  "correct_J cv m delta_slope delta_b =
     bind_res (bounds_loop cv m [0..<ncols m])
       (\<lambda>(low, high).
          case m of
            [] \<Rightarrow> Some (Inl IndexError)
          | J # rest \<Rightarrow>
              (case method1 J of
                 Inl e \<Rightarrow> Some (Inl e)
               | Inr line_fit \<Rightarrow>
                   let m1 = m[0 := line_fit];
                       max_b = max (hd high) (last high)
                   in if hd J \<le> last J
                      then (let slope = last high - hd low
                            in if slope < 0 then Some (Inr (m1, None))
                               else map_option (\<lambda>m2. Inr (m1, m2))
                                      (search_slope low high m max_b (- \<bar>delta_slope\<bar>) delta_b slope))
                      else (let slope = last low - hd high
                            in if slope > 0 then Some (Inr (m1, None))
                               else map_option (\<lambda>m2. Inr (m1, m2))
                                      (search_slope low high m max_b \<bar>delta_slope\<bar> delta_b slope))))"

section \<open>The perceptual linearizer\<close>

text \<open>
  \<^verbatim>\<open>make_linear\<close> copies its argument and writes into the copy. To tell the copy from the
  caller's array, arrays are held in a store, the list of all arrays allocated so far, and
  named by their index in it: \<^verbatim>\<open>np.copy\<close> appends a new array to the store, and an
  assignment \<^verbatim>\<open>jab[row, col] = v\<close> replaces one entry of the array of one reference.
\<close>

type_synonym store = "real list list list"

definition np_copy :: "store \<Rightarrow> nat \<Rightarrow> store \<times> nat" where
  "np_copy h r = (h @ [h ! r], length h)"

definition setitem :: "store \<Rightarrow> nat \<Rightarrow> nat \<Rightarrow> nat \<Rightarrow> real \<Rightarrow> store" where
  "setitem h r row col v = h[r := (h ! r)[row := (h ! r ! row)[col := v]]]"

text \<open>
  \<^verbatim>\<open>np.interp(x, range(256), fp)\<close>, of numpy: the piecewise linear function through the
  points \<open>(k, fp[k])\<close>, constant outside \<open>[0, 255]\<close>.
\<close>

definition interp256 :: "real list \<Rightarrow> real \<Rightarrow> real" where
  "interp256 fp x =
     (if x \<le> 0 then fp ! 0
      else if 255 \<le> x then fp ! 255
      else fp ! nat \<lfloor>x\<rfloor> + (x - real (nat \<lfloor>x\<rfloor>)) * (fp ! (nat \<lfloor>x\<rfloor> + 1) - fp ! nat \<lfloor>x\<rfloor>))"

text \<open>
  The distance between the points \<open>i\<close> and \<open>j\<close> of the upsampled curve,
  \<^verbatim>\<open>_find_distance([long_a[i], long_b[i]], [long_a[j], long_b[j]])\<close>. Both points have two
  coordinates, so the call returns a float (lemma \<open>find_distance_pair\<close>), which is the
  value of \<open>curve_distance\<close>.
\<close>

definition curve_distance :: "real list \<Rightarrow> real list \<Rightarrow> nat \<Rightarrow> nat \<Rightarrow> real" where
  "curve_distance long_a long_b i j =
     (case find_distance [long_a ! i, long_b ! i] [long_a ! j, long_b ! j] of
        Float x \<Rightarrow> x
      | ExcClass e \<Rightarrow> 0)"

text \<open>
  The loop that walks along the upsampled curve, from the current \<^verbatim>\<open>jab_ind\<close>,
  \<^verbatim>\<open>long_ind\<close> and \<^verbatim>\<open>d_this\<close> on; \<open>jab\<close> is the reference of the copy:
  \<^verbatim>\<open>
  while jab_ind < 254 and long_ind < l - 1:
      test_d1 = _find_distance([long_a[long_ind - 1], long_b[long_ind - 1]],
                              [long_a[long_ind], long_b[long_ind]])
      test_d2 = _find_distance([long_a[long_ind], long_b[long_ind]],
                              [long_a[long_ind + 1], long_b[long_ind + 1]])
      d_this += test_d1
      d_next = d_this + test_d2
      if abs(d * (jab_ind + 1) - d_this) < abs(d *  (jab_ind + 1) - d_next):
          jab_ind += 1
          jab[1, jab_ind] = long_a[long_ind]
          jab[2, jab_ind] = long_b[long_ind]
      long_ind += 1
  \<close>
\<close>

function walk ::
  "real list \<Rightarrow> real list \<Rightarrow> real \<Rightarrow> nat \<Rightarrow> nat \<Rightarrow> store \<Rightarrow> nat \<Rightarrow> nat \<Rightarrow> real \<Rightarrow> store" where
  "walk long_a long_b d l jab h jab_ind long_ind d_this =
     (if jab_ind < 254 \<and> long_ind + 1 < l
      then (if \<bar>d * real (jab_ind + 1) -
                (d_this + curve_distance long_a long_b (long_ind - 1) long_ind)\<bar>
               < \<bar>d * real (jab_ind + 1) -
                  (d_this + curve_distance long_a long_b (long_ind - 1) long_ind
                     + curve_distance long_a long_b long_ind (long_ind + 1))\<bar>
            then walk long_a long_b d l jab
                   (setitem (setitem h jab 1 (jab_ind + 1) (long_a ! long_ind))
                      jab 2 (jab_ind + 1) (long_b ! long_ind))
                   (jab_ind + 1) (long_ind + 1)
                   (d_this + curve_distance long_a long_b (long_ind - 1) long_ind)
            else walk long_a long_b d l jab h jab_ind (long_ind + 1)
                   (d_this + curve_distance long_a long_b (long_ind - 1) long_ind))
      else h)"
  by pat_completeness auto
termination
  by (relation "measure (\<lambda>(long_a, long_b, d, l, jab, h, jab_ind, long_ind, d_this). l - long_ind)")
    auto

declare walk.simps [simp del]

text \<open>
  \<^verbatim>\<open>
  def make_linear(jab, l=10000):
      jab = np.copy(jab)
      old_x = range(256)
      new_x = np.linspace(0, 255, l)
      long_a = np.interp(new_x, old_x, jab[1, :])
      long_b = np.interp(new_x, old_x, jab[2, :])
      total_length = 0
      for i in range(1, l):
          total_length += _find_distance([long_a[i - 1], long_b[i - 1]],
                                         [long_a[i], long_b[i]])
      d = total_length / 255 # Desired distance between points
      jab_ind = 0
      long_ind = 1
      d_this = 0
      while jab_ind < 254 and long_ind < l - 1: ...
      return jab
  \<close>
  The argument is the reference \<open>r\<close> of a two-dimensional array of the store \<open>h\<close>, and
  \<open>l\<close> is a natural number. The result is the new store and the reference returned.
  \<^verbatim>\<open>jab[1, :]\<close> and \<^verbatim>\<open>jab[2, :]\<close> raise IndexError on an array without that row, and
  \<^verbatim>\<open>np.interp\<close> raises ValueError unless the row has 256 entries.
\<close>

definition make_linear :: "store \<Rightarrow> nat \<Rightarrow> nat \<Rightarrow> py_error + store \<times> nat" where
  "make_linear h r l =
     (case np_copy h r of
        (h1, jab) \<Rightarrow>
          if length (h1 ! jab) < 2 then Inl IndexError
          else if length (h1 ! jab ! 1) \<noteq> 256 then Inl ValueError
          else if length (h1 ! jab) < 3 then Inl IndexError
          else if length (h1 ! jab ! 2) \<noteq> 256 then Inl ValueError
          else
            let new_x = linspace 0 255 l;
                long_a = map (interp256 (h1 ! jab ! 1)) new_x;
                long_b = map (interp256 (h1 ! jab ! 2)) new_x;
                total_length =
                  fold (\<lambda>i total. total + curve_distance long_a long_b (i - 1) i) [1..<l] 0;
                d = total_length / 255
            in Inr (walk long_a long_b d l jab h1 0 1 0, jab))"

text \<open>
  What \<^verbatim>\<open>make_linear\<close> keeps of its argument \<open>inp\<close> in its result \<open>out\<close>: the number of
  rows and the length of each row, every row but the rows 1 and 2 (\<^verbatim>\<open>a\<close> and \<^verbatim>\<open>b\<close>), and
  in every row the first and the last entry.
\<close>

definition same_frame :: "real list list \<Rightarrow> real list list \<Rightarrow> bool" where
  "same_frame inp out \<longleftrightarrow>
     length out = length inp \<and> map length out = map length inp \<and>
     (\<forall>k<length inp. k \<noteq> 1 \<longrightarrow> k \<noteq> 2 \<longrightarrow> out ! k = inp ! k) \<and>
     (\<forall>k<length inp. out ! k ! 0 = inp ! k ! 0 \<and> out ! k ! 255 = inp ! k ! 255)"

section \<open>Inputs for the examples\<close>

text \<open>
  Four converters at which the theorems are evaluated: one under which no colour is
  displayable, one under which a colour is displayable when \<open>J / 100\<close> is a valid
  component (the greys), one under which the pairs with \<open>a = 0\<close> are displayable for
  \<open>J\<close> in \<open>[10, 20]\<close> and the pairs with \<open>a = 1\<close> for \<open>J\<close> in \<open>[50, 60]\<close>, and one with
  the same two ranges widened by 0.05 at each end, so that no end of a range is a value
  that a scan in steps of 0.1 and 5 visits.
\<close>

definition out_of_gamut :: converter where
  "out_of_gamut j a b = (Finite 2, Finite 2, Finite 2)"


definition two_ranges :: converter where
  "two_ranges j a b =
     (if (a = Scalar 0 \<and> 10 \<le> j \<and> j \<le> 20) \<or> (a = Scalar 1 \<and> 50 \<le> j \<and> j \<le> 60)
      then (Finite (1 / 2), Finite (1 / 2), Finite (1 / 2))
      else (Finite 2, Finite 2, Finite 2))"

definition apart :: converter where
  "apart j a b =
     (if (a = Scalar 0 \<and> 199 / 20 \<le> j \<and> j \<le> 401 / 20) \<or>
         (a = Scalar 1 \<and> 999 / 20 \<le> j \<and> j \<le> 1201 / 20)
      then (Finite (1 / 2), Finite (1 / 2), Finite (1 / 2))
      else (Finite 2, Finite 2, Finite 2))"

text \<open>
  Bounds at which the search for the second fit is evaluated: the lower bound 10 and the
  upper bound 12 at every index, except for the upper bound 10.6 at index 128.
\<close>

definition dip_low :: "real list" where
  "dip_low = replicate 256 10"

definition dip_high :: "real list" where
  "dip_high = (replicate 256 12)[128 := 53 / 5]"

section \<open>Properties of the math functions\<close>

lemma valid_rgb_Finite:
  "valid_rgb (Finite x) e \<longleftrightarrow> - e < x \<and> x < 1 + e"
  by (auto simp: valid_rgb_def)

lemma valid_rgb_not_finite:
  "\<not> valid_rgb PosInf e" "\<not> valid_rgb NegInf e" "\<not> valid_rgb NaN e"
  by (simp_all add: valid_rgb_def)

text \<open>
  Claim C7, as stated: with the default \<open>e = 0.001\<close>, \<^verbatim>\<open>_valid_rgb\<close> is true exactly for
  the finite values of the closed interval \<open>[-e, 1 + e]\<close>. The code compares strictly, so
  the end point \<open>1 + e\<close>, which is finite and in the closed interval, is rejected.
\<close>

theorem C7_closed_interval_counterexample:
  "\<not> (valid_rgb (Finite (1 + 1 / 1000)) (1 / 1000) \<longleftrightarrow>
        (isfinite (Finite (1 + 1 / 1000)) \<and>
         - (1 / 1000) \<le> (1 + 1 / 1000 :: real) \<and> (1 + 1 / 1000 :: real) \<le> 1 + 1 / 1000))"
  by (simp add: valid_rgb_def)

text \<open>
  Claim C7, amended: with the default \<open>e = 0.001\<close>, \<^verbatim>\<open>_valid_rgb\<close> is true exactly for
  the finite values of the open interval \<open>(-e, 1 + e)\<close>.
\<close>

theorem C7_valid_rgb_open_interval:
  "valid_rgb num (1 / 1000) \<longleftrightarrow>
     (\<exists>x. num = Finite x \<and> - (1 / 1000) < x \<and> x < 1 + 1 / 1000)"
  by (cases num) (simp_all add: valid_rgb_Finite valid_rgb_not_finite)

theorem C7_valid_rgb_open_interval_witness:
  "valid_rgb (Finite (1 / 2)) (1 / 1000) \<and> \<not> valid_rgb (Finite (- (1 / 1000))) (1 / 1000)"
proof -
  have "\<exists>x::real. Finite (1 / 2) = Finite x \<and> - (1 / 1000) < x \<and> x < 1 + 1 / 1000"
    by (rule exI [of _ "1 / 2"]) simp
  then have inside: "valid_rgb (Finite (1 / 2)) (1 / 1000)"
    by (rule iffD2 [OF C7_valid_rgb_open_interval])
  have "\<not> (\<exists>x::real. Finite (- (1 / 1000)) = Finite x \<and> - (1 / 1000) < x \<and> x < 1 + 1 / 1000)"
    by auto
  then have "\<not> valid_rgb (Finite (- (1 / 1000))) (1 / 1000)"
    using C7_valid_rgb_open_interval [of "Finite (- (1 / 1000))"] by blast
  with inside show ?thesis by blast
qed

lemma find_distance_same_length:
  "length p1 = length p2 \<Longrightarrow>
   find_distance p1 p2 =
     Float (sqrt (fold (\<lambda>i val. val + (p2 ! i - p1 ! i) ^ 2) [0..<length p1] 0))"
  by (simp add: find_distance_def)

lemma fold_sq_sum:
  "fold (\<lambda>i val. val + (f i :: real)) is v = v + (\<Sum>i\<leftarrow>is. f i)"
  by (induction "is" arbitrary: v) simp_all

lemma find_distance_euclidean:
  "length p1 = length p2 \<Longrightarrow>
   find_distance p1 p2 = Float (sqrt (\<Sum>i\<leftarrow>[0..<length p1]. (p2 ! i - p1 ! i) ^ 2))"
  by (simp add: find_distance_def fold_sq_sum)

text \<open>
  Claim C8: on points of unequal length \<^verbatim>\<open>_find_distance\<close> fails with a length-mismatch
  error and never returns a type object. The code returns the class \<^verbatim>\<open>ValueError\<close>: here
  at the points \<open>[0]\<close> and \<open>[0, 0]\<close>. (On points of equal length it returns the
  Euclidean distance: \<open>find_distance_euclidean\<close>.)
\<close>

theorem C8_find_distance_returns_class:
  "find_distance [0] [0, 0] = ExcClass ValueError"
  by (simp add: find_distance_def)

section \<open>Properties of the bound finder\<close>


lemma coarse_steps_stop:
  "\<not> find_J_bounds' cv (J + 5) a b \<Longrightarrow> coarse_steps cv a b J passed = Some (J, passed)"
  by (simp add: coarse_steps.simps)

text \<open>
  Where no lightness from \<open>J\<close> to \<open>maxJ + 5\<close> is feasible the scan ends and records
  nothing: the number of steps of 0.1 left is the measure.
\<close>

lemma scan_J_dead_aux:
  "maxJ - J < real n / 10 \<Longrightarrow> (\<forall>x. J \<le> x \<and> x \<le> maxJ + 5 \<longrightarrow> \<not> find_J_bounds' cv x a b) \<Longrightarrow>
   scan_J cv a b maxJ J passed = Some passed"
proof (induction n arbitrary: J)
  case 0
  then show ?case by (subst scan_J.simps) simp
next
  case (Suc n)
  show ?case
  proof (cases "J \<le> maxJ")
    case True
    have nJ: "\<not> find_J_bounds' cv J a b" and nJ5: "\<not> find_J_bounds' cv (J + 5) a b"
      using Suc.prems(2) True by auto
    have "scan_J cv a b maxJ (J + 1 / 10) passed = Some passed"
      using Suc.prems by (intro Suc.IH) auto
    then show ?thesis
      using True nJ nJ5 by (subst scan_J.simps) (simp add: coarse_steps_stop)
  next
    case False
    then show ?thesis by (subst scan_J.simps) simp
  qed
qed

lemma scan_J_dead:
  assumes "\<forall>x. J \<le> x \<and> x \<le> maxJ + 5 \<longrightarrow> \<not> find_J_bounds' cv x a b"
  shows "scan_J cv a b maxJ J passed = Some passed"
proof -
  obtain n :: nat where "(maxJ - J) * 10 < real n" using reals_Archimedean2 by blast
  then have "maxJ - J < real n / 10" by simp
  then show ?thesis using assms by (rule scan_J_dead_aux)
qed



text \<open>Single steps of the scan, and a stretch of steps at which nothing is feasible.\<close>

lemma scan_J_past: "maxJ < J \<Longrightarrow> scan_J cv a b maxJ J passed = Some passed"
  by (subst scan_J.simps) simp

lemma scan_J_skip_aux:
  "(\<forall>x. J \<le> x \<and> x < J + real n / 10 \<longrightarrow>
        \<not> find_J_bounds' cv x a b \<and> \<not> find_J_bounds' cv (x + 5) a b) \<Longrightarrow>
   J + real n / 10 \<le> maxJ + 1 / 10 \<Longrightarrow>
   scan_J cv a b maxJ J passed = scan_J cv a b maxJ (J + real n / 10) passed"
proof (induction n arbitrary: J)
  case 0
  then show ?case by simp
next
  case (Suc n)
  have here: "\<not> find_J_bounds' cv J a b" "\<not> find_J_bounds' cv (J + 5) a b"
    using Suc.prems(1) by (auto dest: spec [of _ J])
  have le: "J \<le> maxJ" using Suc.prems(2) by (simp add: field_simps)
  have eq: "J + 1 / 10 + real n / 10 = J + real (Suc n) / 10" by (simp add: field_simps)
  have "scan_J cv a b maxJ (J + 1 / 10) passed =
        scan_J cv a b maxJ (J + 1 / 10 + real n / 10) passed"
  proof (rule Suc.IH)
    show "\<forall>x. J + 1 / 10 \<le> x \<and> x < J + 1 / 10 + real n / 10 \<longrightarrow>
        \<not> find_J_bounds' cv x a b \<and> \<not> find_J_bounds' cv (x + 5) a b"
      using Suc.prems(1) unfolding eq by auto
    show "J + 1 / 10 + real n / 10 \<le> maxJ + 1 / 10"
      using Suc.prems(2) unfolding eq .
  qed
  then show ?case
    unfolding eq using here le by (subst scan_J.simps) (simp add: coarse_steps_stop)
qed

lemma scan_J_fine:
  "J \<le> maxJ \<Longrightarrow> \<not> find_J_bounds' cv (J + 5) a b \<Longrightarrow>
   scan_J cv a b maxJ J passed =
     scan_J cv a b maxJ (J + 1 / 10) (if find_J_bounds' cv J a b then passed @ [J] else passed)"
  by (subst scan_J.simps) (simp add: coarse_steps_stop)





lemma scan_J_record:
  "J \<le> maxJ \<Longrightarrow> find_J_bounds' cv J a b \<Longrightarrow> \<not> find_J_bounds' cv (J + 5) a b \<Longrightarrow>
   scan_J cv a b maxJ J passed = scan_J cv a b maxJ (J + 1 / 10) (passed @ [J])"
  by (simp add: scan_J_fine)








text \<open>
  A stretch of steps of 0.1 at none of which \<open>J\<close> or \<open>J + 5\<close> is feasible is passed
  without a record.
\<close>

lemma scan_J_skip_grid:
  "(\<forall>k<n. \<not> find_J_bounds' cv (J + real k / 10) a b \<and>
           \<not> find_J_bounds' cv (J + real k / 10 + 5) a b) \<Longrightarrow>
   J + real n / 10 \<le> maxJ + 1 / 10 \<Longrightarrow>
   scan_J cv a b maxJ J passed = scan_J cv a b maxJ (J + real n / 10) passed"
proof (induction n arbitrary: J)
  case 0
  then show ?case by simp
next
  case (Suc n)
  have here: "\<not> find_J_bounds' cv J a b" "\<not> find_J_bounds' cv (J + 5) a b"
    using Suc.prems(1) [rule_format, of 0] by simp_all
  have le: "J \<le> maxJ" using Suc.prems(2) by (simp add: field_simps)
  have eq: "J + 1 / 10 + real n / 10 = J + real (Suc n) / 10" by (simp add: field_simps)
  have "scan_J cv a b maxJ (J + 1 / 10) passed =
        scan_J cv a b maxJ (J + 1 / 10 + real n / 10) passed"
  proof (rule Suc.IH)
    show "\<forall>k<n. \<not> find_J_bounds' cv (J + 1 / 10 + real k / 10) a b \<and>
        \<not> find_J_bounds' cv (J + 1 / 10 + real k / 10 + 5) a b"
    proof (intro allI impI)
      fix k assume "k < n"
      then have "Suc k < Suc n" by simp
      from Suc.prems(1) [rule_format, OF this]
      show "\<not> find_J_bounds' cv (J + 1 / 10 + real k / 10) a b \<and>
        \<not> find_J_bounds' cv (J + 1 / 10 + real k / 10 + 5) a b"
        by (simp add: field_simps)
    qed
    show "J + 1 / 10 + real n / 10 \<le> maxJ + 1 / 10"
      using Suc.prems(2) unfolding eq .
  qed
  then show ?case
    unfolding eq using here le by (subst scan_J.simps) (simp add: coarse_steps_stop)
qed

subsection \<open>The example converters\<close>

lemma out_of_gamut_never: "\<not> find_J_bounds' out_of_gamut j a b"
  by (simp add: find_J_bounds'_def out_of_gamut_def valid_rgb_Finite)


lemma two_ranges_feasible:
  "find_J_bounds' two_ranges j a b \<longleftrightarrow>
     (a = Scalar 0 \<and> 10 \<le> j \<and> j \<le> 20) \<or> (a = Scalar 1 \<and> 50 \<le> j \<and> j \<le> 60)"
  by (simp add: find_J_bounds'_def two_ranges_def valid_rgb_Finite)

lemma apart_feasible:
  "find_J_bounds' apart j a b \<longleftrightarrow>
     (a = Scalar 0 \<and> 199 / 20 \<le> j \<and> j \<le> 401 / 20) \<or>
     (a = Scalar 1 \<and> 999 / 20 \<le> j \<and> j \<le> 1201 / 20)"
  by (simp add: find_J_bounds'_def apart_def valid_rgb_Finite)

subsection \<open>The two branches\<close>



subsection \<open>No failure value\<close>

lemma scan_out_of_gamut: "scan_J out_of_gamut a b maxJ J passed = Some passed"
  by (rule scan_J_dead) (simp add: out_of_gamut_never)

lemma pairs_loop_out_of_gamut: "pairs_loop out_of_gamut ps minJ maxJ = Some (minJ, maxJ)"
  by (induction ps) (auto simp: scan_out_of_gamut)

lemma two_ranges_first_scan:
  "scan_J two_ranges (Scalar 0) (Scalar 0) 100 0 [] = Some [5, 10, 15]"
proof -
  have "scan_J two_ranges (Scalar 0) (Scalar 0) 100 0 [] =
        scan_J two_ranges (Scalar 0) (Scalar 0) 100 (0 + real 50 / 10) []"
    by (rule scan_J_skip_aux) (auto simp: two_ranges_feasible)
  also have "\<dots> = scan_J two_ranges (Scalar 0) (Scalar 0) 100 (201 / 10) [5, 10, 15]"
    by (subst scan_J.simps) (simp add: coarse_steps.simps two_ranges_feasible)
  also have "\<dots> = Some [5, 10, 15]"
    by (rule scan_J_dead) (simp add: two_ranges_feasible)
  finally show ?thesis .
qed

lemma two_ranges_other_scan:
  "scan_J two_ranges (Scalar 1) (Scalar 0) 15 5 [] = Some []"
  by (rule scan_J_dead) (simp add: two_ranges_feasible)

lemma two_ranges_second_scan:
  "scan_J two_ranges (Scalar 0) (Scalar 0) 15 5 [] = Some [5, 10, 15]"
  by (subst scan_J.simps) (simp add: coarse_steps.simps two_ranges_feasible scan_J_past)

text \<open>
  Claim C1: \<^verbatim>\<open>find_J_bounds\<close> returns a distinguished failure value when no lightness is
  feasible for all pairs. The code has no such value: it ends with
  \<^verbatim>\<open>return minJ, maxJ\<close> on every path, although its callers test
  \<^verbatim>\<open>if minJ is None\<close>. Evaluated at two arrays of four pairs: with a converter under
  which no lightness is ever feasible the result is the initial interval \<open>(0, 100)\<close>;
  with one under which the pairs with \<open>a = 0\<close> are feasible on \<open>[10, 20]\<close> and those
  with \<open>a = 1\<close> on \<open>[50, 60]\<close> the result is the interval \<open>(5, 15)\<close>.
\<close>

theorem C1_no_failure_value:
  "find_J_bounds out_of_gamut (Mat [[50, 50, 50, 50], [1, 2, 3, 4], [5, 6, 7, 8]]) =
     Some (Inr (0, 100)) \<and>
   find_J_bounds two_ranges (Mat [[15, 55, 15, 55], [0, 1, 0, 1], [0, 0, 0, 0]]) =
     Some (Inr (5, 15))"
proof
  show "find_J_bounds out_of_gamut (Mat [[50, 50, 50, 50], [1, 2, 3, 4], [5, 6, 7, 8]]) =
      Some (Inr (0, 100))"
    by (simp add: find_J_bounds_def pairs_loop_out_of_gamut del: pairs_loop.simps)
  show "find_J_bounds two_ranges (Mat [[15, 55, 15, 55], [0, 1, 0, 1], [0, 0, 0, 0]]) =
      Some (Inr (5, 15))"
    by (simp add: find_J_bounds_def two_ranges_first_scan two_ranges_other_scan
        two_ranges_second_scan)
qed


subsection \<open>The aggregate and the bound of one pair\<close>

text \<open>
  A colormap whose pairs alternate between the two ranges of \<open>apart\<close>, and the colormap
  of its second pair alone.
\<close>

lemma apart_first_scan:
  "scan_J apart (Scalar 0) (Scalar 0) 100 0 [] = Some [5, 10, 15]"
proof -
  have "scan_J apart (Scalar 0) (Scalar 0) 100 0 [] =
        scan_J apart (Scalar 0) (Scalar 0) 100 (0 + real 50 / 10) []"
  proof (rule scan_J_skip_grid)
    show "\<forall>k<50. \<not> find_J_bounds' apart (0 + real k / 10) (Scalar 0) (Scalar 0) \<and>
        \<not> find_J_bounds' apart (0 + real k / 10 + 5) (Scalar 0) (Scalar 0)"
    proof (intro allI impI)
      fix k :: nat assume "k < 50"
      then have "real k \<le> 49" by simp
      then show "\<not> find_J_bounds' apart (0 + real k / 10) (Scalar 0) (Scalar 0) \<and>
        \<not> find_J_bounds' apart (0 + real k / 10 + 5) (Scalar 0) (Scalar 0)"
        by (simp add: apart_feasible)
    qed
    show "0 + real 50 / 10 \<le> (100 :: real) + 1 / 10" by simp
  qed
  also have "\<dots> = scan_J apart (Scalar 0) (Scalar 0) 100 (201 / 10) [5, 10, 15]"
    by (subst scan_J.simps) (simp add: coarse_steps.simps apart_feasible)
  also have "\<dots> = Some [5, 10, 15]"
    by (rule scan_J_dead) (simp add: apart_feasible)
  finally show ?thesis .
qed

lemma apart_other_scan:
  "scan_J apart (Scalar 1) (Scalar 0) 15 5 [] = Some []"
  by (rule scan_J_dead) (simp add: apart_feasible)

lemma apart_second_scan:
  "scan_J apart (Scalar 0) (Scalar 0) 15 5 [] = Some [5, 10, 15]"
  by (subst scan_J.simps) (simp add: coarse_steps.simps apart_feasible scan_J_past)

lemma apart_own_scan:
  "scan_J apart (Scalar 1) (Scalar 0) 100 0 [] = Some [45, 50, 55]"
proof -
  have "scan_J apart (Scalar 1) (Scalar 0) 100 0 [] =
        scan_J apart (Scalar 1) (Scalar 0) 100 (0 + real 450 / 10) []"
  proof (rule scan_J_skip_grid)
    show "\<forall>k<450. \<not> find_J_bounds' apart (0 + real k / 10) (Scalar 1) (Scalar 0) \<and>
        \<not> find_J_bounds' apart (0 + real k / 10 + 5) (Scalar 1) (Scalar 0)"
    proof (intro allI impI)
      fix k :: nat assume "k < 450"
      then have "real k \<le> 449" by simp
      then show "\<not> find_J_bounds' apart (0 + real k / 10) (Scalar 1) (Scalar 0) \<and>
        \<not> find_J_bounds' apart (0 + real k / 10 + 5) (Scalar 1) (Scalar 0)"
        by (simp add: apart_feasible)
    qed
    show "0 + real 450 / 10 \<le> (100 :: real) + 1 / 10" by simp
  qed
  also have "\<dots> = scan_J apart (Scalar 1) (Scalar 0) 100 (601 / 10) [45, 50, 55]"
    by (subst scan_J.simps) (simp add: coarse_steps.simps apart_feasible)
  also have "\<dots> = Some [45, 50, 55]"
    by (rule scan_J_dead) (simp add: apart_feasible)
  finally show ?thesis .
qed

lemma apart_own_rescan:
  "scan_J apart (Scalar 1) (Scalar 0) 55 45 [] = Some [45, 50, 55]"
  by (subst scan_J.simps) (simp add: coarse_steps.simps apart_feasible scan_J_past)

text \<open>
  Claim C2: the aggregated interval lies within the bound computed for any single pair of
  the set on its own. For the pairs \<open>a = 0, 1, 0, 1\<close> under \<open>apart\<close> (feasible for \<open>J\<close>
  in \<open>[9.95, 20.05]\<close> and in \<open>[49.95, 60.05]\<close>) \<^verbatim>\<open>find_J_bounds\<close> returns the aggregate
  \<open>(5, 15)\<close>, and for the colormap of the second pair alone it returns \<open>(45, 55)\<close>: the
  aggregate minimum 5 is below the minimum 45 of that pair, and the lightness 5 is feasible
  for neither pair.
\<close>

theorem C2_aggregate_outside_pair_bound:
  "find_J_bounds apart (Mat [[50, 50, 50, 50], [0, 1, 0, 1], [0, 0, 0, 0]]) = Some (Inr (5, 15)) \<and>
   find_J_bounds apart (Mat [[50, 50, 50, 50], [1, 1, 1, 1], [0, 0, 0, 0]]) = Some (Inr (45, 55)) \<and>
   \<not> (45 \<le> (5 :: real)) \<and>
   \<not> find_J_bounds' apart 5 (Scalar 0) (Scalar 0) \<and>
   \<not> find_J_bounds' apart 5 (Scalar 1) (Scalar 0)"
proof (intro conjI)
  show "find_J_bounds apart (Mat [[50, 50, 50, 50], [0, 1, 0, 1], [0, 0, 0, 0]]) =
      Some (Inr (5, 15))"
    by (simp add: find_J_bounds_def apart_first_scan apart_other_scan apart_second_scan)
  show "find_J_bounds apart (Mat [[50, 50, 50, 50], [1, 1, 1, 1], [0, 0, 0, 0]]) =
      Some (Inr (45, 55))"
    by (simp add: find_J_bounds_def apart_own_scan apart_own_rescan)
  show "\<not> (45 \<le> (5 :: real))" by simp
  show "\<not> find_J_bounds' apart 5 (Scalar 0) (Scalar 0)" by (simp add: apart_feasible)
  show "\<not> find_J_bounds' apart 5 (Scalar 1) (Scalar 0)" by (simp add: apart_feasible)
qed
section \<open>Properties of the linear fit engine\<close>

lemma bind_res_Inr:
  "bind_res r f = Some (Inr v) \<longleftrightarrow> (\<exists>x. r = Some (Inr x) \<and> f x = Some (Inr v))"
  by (auto simp: bind_res_def split: option.splits sum.splits)

lemma bind_res_simps [simp]:
  "bind_res None f = None"
  "bind_res (Some (Inl e)) f = Some (Inl e)"
  "bind_res (Some (Inr x)) f = f x"
  by (simp_all add: bind_res_def)

lemma length_range256 [simp]: "length range256 = 256"
  by (simp add: range256_def)

lemma nth_range256: "i < 256 \<Longrightarrow> range256 ! i = real i"
  by (simp add: range256_def)

lemma range256_ne: "range256 \<noteq> []"
  using length_range256 by fastforce

lemma hd_range256: "hd range256 = 0" and last_range256: "last range256 = 255"
  by (simp_all add: range256_def hd_map last_map)

lemma length_linspace [simp]: "length (linspace a b n) = n"
  by (simp add: linspace_def)

subsection \<open>The least-squares line through the points of a line\<close>

text \<open>
  The sums of \<open>0, \<dots>, n - 1\<close> and of their squares in closed form, and with them the
  least-squares line through the points \<open>(x, s x + c)\<close> for \<open>x = 0, \<dots>, 255\<close>: it has
  the slope \<open>s\<close> and the intercept \<open>c\<close>.
\<close>

lemma sum_range: "sum_list (map real [0..<n]) = real n * (real n - 1) / 2"
  by (induction n) (simp_all add: field_simps)

lemma sum_squares_range:
  "(\<Sum>x\<leftarrow>map real [0..<n]. x * x) = (real n - 1) * real n * (2 * real n - 1) / 6"
  by (induction n) (simp_all add: field_simps)

lemma sum_range256: "sum_list range256 = 32640"
  unfolding range256_def sum_range by simp

lemma sum_squares_range256: "(\<Sum>x\<leftarrow>range256. x * x) = 5559680"
  unfolding range256_def sum_squares_range by simp

lemma sum_zip_affine:
  "(\<Sum>(x, y)\<leftarrow>zip xs (map (\<lambda>x. s * x + c) xs). x * y) =
     s * (\<Sum>x\<leftarrow>xs. x * x) + c * sum_list (xs :: real list)"
  by (induction xs) (simp_all add: algebra_simps)

lemma sum_affine:
  "sum_list (map (\<lambda>x. s * x + c) xs) = s * sum_list xs + c * real (length xs)"
  by (induction xs) (simp_all add: algebra_simps)

lemma lstsq_line_affine:
  assumes "real (length xs) * (\<Sum>x\<leftarrow>xs. x * x) - sum_list xs * sum_list xs \<noteq> 0"
  shows "lstsq_line xs (map (\<lambda>x. s * x + c) xs) = (s, c)"
proof -
  define n where "n = real (length xs)"
  define sx where "sx = sum_list xs"
  define sxx where "sxx = (\<Sum>x\<leftarrow>xs. x * x)"
  have D: "n * sxx - sx * sx \<noteq> 0" using assms by (simp add: n_def sx_def sxx_def)
  have n0: "n \<noteq> 0"
  proof
    assume "n = 0"
    then have "xs = []" by (simp add: n_def)
    then have "n * sxx - sx * sx = 0" by (simp add: n_def sx_def)
    with D show False by contradiction
  qed
  have num: "n * (s * sxx + c * sx) - sx * (s * sx + c * n) = s * (n * sxx - sx * sx)"
    by (simp add: algebra_simps)
  have slope: "(n * (s * sxx + c * sx) - sx * (s * sx + c * n)) / (n * sxx - sx * sx) = s"
    unfolding num using D by simp
  have icpt: "(s * sx + c * n - s * sx) / n = c" using n0 by simp
  show ?thesis
    unfolding lstsq_line_def Let_def sum_zip_affine sum_affine
    unfolding n_def [symmetric] sx_def [symmetric] sxx_def [symmetric] slope
    using icpt by simp
qed

lemma lstsq_line_range256: "lstsq_line range256 (map (\<lambda>x. s * x + c) range256) = (s, c)"
proof (rule lstsq_line_affine)
  have "length range256 = 256" by (simp add: range256_def)
  then show "real (length range256) * (\<Sum>x\<leftarrow>range256. x * x) -
      sum_list range256 * sum_list range256 \<noteq> 0"
    by (simp add: sum_range256 sum_squares_range256)
qed

text \<open>The largest and the smallest value of a line that does not fall.\<close>

lemma Max_affine_range256:
  assumes "0 \<le> s"
  shows "Max (set (map (\<lambda>x. s * x + c) range256)) = s * 255 + c"
proof (rule Max_eqI)
  show "finite (set (map (\<lambda>x. s * x + c) range256))" by simp
  show "y \<le> s * 255 + c" if "y \<in> set (map (\<lambda>x. s * x + c) range256)" for y
  proof -
    from that obtain i :: nat where i: "i < 256" and y: "y = s * real i + c"
      by (auto simp: range256_def)
    have "real i \<le> 255" using i by simp
    then have "s * real i \<le> s * 255" using assms by (rule mult_left_mono)
    then show ?thesis unfolding y by simp
  qed
  have "(255 :: nat) \<in> set [0..<256]" by simp
  then have "s * real 255 + c \<in> (\<lambda>i. s * real i + c) ` set [0..<256]" by (rule imageI)
  then show "s * 255 + c \<in> set (map (\<lambda>x. s * x + c) range256)"
    by (simp add: range256_def image_image)
qed

lemma Min_affine_range256:
  assumes "0 \<le> s"
  shows "Min (set (map (\<lambda>x. s * x + c) range256)) = c"
proof (rule Min_eqI)
  show "finite (set (map (\<lambda>x. s * x + c) range256))" by simp
  show "c \<le> y" if "y \<in> set (map (\<lambda>x. s * x + c) range256)" for y
  proof -
    from that obtain i :: nat where y: "y = s * real i + c"
      by (auto simp: range256_def)
    have "0 \<le> s * real i" using assms by simp
    then show ?thesis unfolding y by simp
  qed
  have "(0 :: nat) \<in> set [0..<256]" by simp
  then have "s * real 0 + c \<in> (\<lambda>i. s * real i + c) ` set [0..<256]" by (rule imageI)
  then show "c \<in> set (map (\<lambda>x. s * x + c) range256)"
    by (simp add: range256_def image_image)
qed

lemma candidate_nth: "i < 256 \<Longrightarrow> map (\<lambda>x. s * x + c) range256 ! i = s * real i + c"
  by (simp add: nth_range256)

lemma candidate_hd: "hd (map (\<lambda>x. s * x + c) range256) = c"
  by (simp add: hd_map range256_ne hd_range256)

lemma candidate_last: "last (map (\<lambda>x. s * x + c) range256) = s * 255 + c"
  by (simp add: last_map range256_ne last_range256)

subsection \<open>Method 1\<close>

lemma linspace_up: "v \<in> set (linspace 1 99 256) \<Longrightarrow> 1 \<le> v \<and> v \<le> 99"
proof -
  assume "v \<in> set (linspace 1 99 256)"
  then obtain i :: nat where i: "i < 256" and v: "v = 1 + real i * (98 / 255)"
    by (auto simp: linspace_def)
  have "real i \<le> 255" using i by simp
  then show ?thesis unfolding v by simp
qed

lemma linspace_down: "v \<in> set (linspace 99 1 256) \<Longrightarrow> 1 \<le> v \<and> v \<le> 99"
proof -
  assume "v \<in> set (linspace 99 1 256)"
  then obtain i :: nat where i: "i < 256" and v: "v = 99 + real i * (- 98 / 255)"
    by (auto simp: linspace_def)
  have "real i \<le> 255" using i by simp
  then show ?thesis unfolding v by simp
qed

lemma shifted_to_99:
  assumes "lf \<noteq> []" and "v \<in> set (map (\<lambda>u. u + (99 - Max (set lf))) lf)"
  shows "v \<le> (99 :: real)"
proof -
  from assms(2) obtain u where u: "u \<in> set lf" and v: "v = u + (99 - Max (set lf))" by auto
  have "u \<le> Max (set lf)" using u by simp
  then show ?thesis unfolding v by simp
qed

text \<open>
  The first trajectory in the branch \<^verbatim>\<open>max(line_fit) > 99\<close>: the line of \<^verbatim>\<open>lin_fit\<close>
  shifted so that its largest value is 99, or one of the two fixed lines between 1 and
  99 when the shifted line goes below 1.
\<close>

lemma method1_branch:
  assumes "length J = 256" and "99 < Max (set (first_fit J))"
  shows "method1 J =
     (let lf = map (\<lambda>x. fst (lstsq_line range256 (map (\<lambda>v. v - 99) J)) * x) range256;
          line_fit = map (\<lambda>v. v + (99 - Max (set lf))) lf
      in if Min (set line_fit) < 1
         then (if hd line_fit < last line_fit then Inr (linspace 1 99 256)
               else Inr (linspace 99 1 256))
         else Inr line_fit)"
proof -
  have len: "length (map (\<lambda>v. v - 99) J) = 256" using assms(1) by simp
  show ?thesis
    unfolding method1_def lin_fit_def len assms(1) Let_def
    using assms(2) by (simp only: if_True if_False sum.case simp_thms)
qed

lemma method1_clamped:
  assumes "length J = 256" and "99 < Max (set (first_fit J))"
  shows "\<exists>line. method1 J = Inr line \<and> length line = 256 \<and> (\<forall>v\<in>set line. 1 \<le> v \<and> v \<le> 99)"
proof -
  define lf where "lf = map (\<lambda>x. fst (lstsq_line range256 (map (\<lambda>v. v - 99) J)) * x) range256"
  define shifted where "shifted = map (\<lambda>v. v + (99 - Max (set lf))) lf"
  have lf_len: "length lf = 256" by (simp add: lf_def)
  then have lf_ne: "lf \<noteq> []" by auto
  have sh_len: "length shifted = 256" by (simp add: shifted_def lf_len)
  have line: "method1 J =
      (if Min (set shifted) < 1
       then (if hd shifted < last shifted then Inr (linspace 1 99 256) else Inr (linspace 99 1 256))
       else Inr shifted)"
    unfolding method1_branch [OF assms] shifted_def lf_def Let_def ..
  show ?thesis
  proof (cases "Min (set shifted) < 1")
    case True
    then show ?thesis using line linspace_up linspace_down by auto
  next
    case False
    have "1 \<le> v \<and> v \<le> 99" if "v \<in> set shifted" for v
    proof
      have "Min (set shifted) \<le> v" using that by simp
      with False show "1 \<le> v" by simp
      show "v \<le> 99" using shifted_to_99 [OF lf_ne] that unfolding shifted_def by blast
    qed
    with False line sh_len show ?thesis by simp
  qed
qed

text \<open>
  Method 1 on a trajectory that is itself a line that does not fall, \<open>J[x] = s x + c\<close>
  with \<open>0 \<le> s\<close>, whose last value \<open>255 s + c\<close> exceeds 99: the result is the same
  line moved down to end at 99, or the fixed line from 1 to 99 when that goes below 1.
\<close>

lemma first_fit_affine: "first_fit (map (\<lambda>x. s * x + c) range256) = map (\<lambda>x. s * x + c) range256"
  by (simp add: first_fit_def lstsq_line_range256)

lemma method1_rising:
  assumes "0 \<le> s" and "99 < s * 255 + c"
  shows "method1 (map (\<lambda>x. s * x + c) range256) =
     Inr (if 99 - s * 255 < 1 then linspace 1 99 256
          else map (\<lambda>x. s * x + (99 - s * 255)) range256)"
proof -
  define J where "J = map (\<lambda>x. s * x + c) range256"
  have len: "length J = 256" by (simp add: J_def)
  have trig: "99 < Max (set (first_fit J))"
    unfolding J_def first_fit_affine Max_affine_range256 [OF assms(1)] by (rule assms(2))
  have temp: "map (\<lambda>v. v - 99) J = map (\<lambda>x. s * x + (c - 99)) range256"
    by (simp add: J_def)
  have lf: "map (\<lambda>x. fst (lstsq_line range256 (map (\<lambda>v. v - 99) J)) * x) range256 =
      map (\<lambda>x. s * x + 0) range256"
    unfolding temp lstsq_line_range256 by simp
  have mx: "Max (set (map (\<lambda>x. s * x + 0) range256)) = s * 255"
    using Max_affine_range256 [OF assms(1), of 0] by simp
  have shifted: "map (\<lambda>v. v + (99 - s * 255)) (map (\<lambda>x. s * x + 0) range256) =
      map (\<lambda>x. s * x + (99 - s * 255)) range256"
    by simp
  have m: "method1 J =
      (if 99 - s * 255 < 1
       then (if 99 - s * 255 < s * 255 + (99 - s * 255) then Inr (linspace 1 99 256)
             else Inr (linspace 99 1 256))
       else Inr (map (\<lambda>x. s * x + (99 - s * 255)) range256))"
    unfolding method1_branch [OF len trig] Let_def lf mx shifted
    unfolding Min_affine_range256 [OF assms(1)] candidate_hd candidate_last ..
  show ?thesis
  proof (cases "99 - s * 255 < 1")
    case True
    then have "99 - s * 255 < s * 255 + (99 - s * 255)" by simp
    with True m show ?thesis unfolding J_def by simp
  next
    case False
    with m show ?thesis unfolding J_def by simp
  qed
qed

lemma linspace_as_line:
  "linspace start stop 256 = map (\<lambda>x. (stop - start) / 255 * x + start) range256"
  by (simp add: linspace_def range256_def)

lemma constant_as_line: "replicate 256 c = map (\<lambda>x. 0 * x + c) range256"
  using map_replicate_const [of c range256] by simp

text \<open>
  Claim C5: whenever the clamp-correction branch of the first fit triggers (the largest
  value of the first least-squares line through the 256 values of \<^verbatim>\<open>m[0, :]\<close> exceeds
  99), Method 1 ends with a trajectory of 256 values, each of them in \<open>[1, 99]\<close>. This
  trajectory is the row \<^verbatim>\<open>m1[0, :]\<close> of \<^verbatim>\<open>correct_J\<close>.
\<close>

theorem C5_fit_A_clamped:
  assumes "length J = 256" and "99 < Max (set (first_fit J))"
  shows "\<exists>line. method1 J = Inr line \<and> length line = 256 \<and> (\<forall>v\<in>set line. 1 \<le> v \<and> v \<le> 99)"
  using assms by (rule method1_clamped)

text \<open>
  Claim C5 at three trajectories: the line from 90 to 110, whose first fit is the
  trajectory itself and which Method 1 moves down to the line from 79 to 99; the line
  from 0 to 100, which moved down would start at -1 and is replaced by the line from 1
  to 99; and the constant 100, which becomes the constant 99.
\<close>

theorem C5_fit_A_clamped_witness:
  "length (map (\<lambda>x. 20 / 255 * x + 90) range256) = 256 \<and>
   99 < Max (set (first_fit (map (\<lambda>x. 20 / 255 * x + 90) range256))) \<and>
   method1 (map (\<lambda>x. 20 / 255 * x + 90) range256) = Inr (map (\<lambda>x. 20 / 255 * x + 79) range256) \<and>
   1 \<le> hd (map (\<lambda>x. 20 / 255 * x + 79) range256) \<and>
   last (map (\<lambda>x. 20 / 255 * x + 79) range256) \<le> 99 \<and>
   method1 (linspace 0 100 256) = Inr (linspace 1 99 256) \<and>
   method1 (replicate 256 100) = Inr (replicate 256 99)"
proof -
  have len: "length (map (\<lambda>x. 20 / 255 * x + 90) range256) = 256" by simp
  have trig: "99 < Max (set (first_fit (map (\<lambda>x. 20 / 255 * x + (90 :: real)) range256)))"
    unfolding first_fit_affine by (subst Max_affine_range256) simp_all
  have run: "method1 (map (\<lambda>x. 20 / 255 * x + 90) range256) =
      Inr (map (\<lambda>x. 20 / 255 * x + 79) range256)"
    by (subst method1_rising) simp_all
  from C5_fit_A_clamped [OF len trig] run have
    "\<forall>v\<in>set (map (\<lambda>x. 20 / 255 * x + 79) range256). 1 \<le> v \<and> v \<le> (99 :: real)"
    by simp
  moreover have "hd (map (\<lambda>x. 20 / 255 * x + (79 :: real)) range256) \<in>
      set (map (\<lambda>x. 20 / 255 * x + 79) range256)"
    by (rule hd_in_set) (simp add: range256_ne)
  moreover have "last (map (\<lambda>x. 20 / 255 * x + (79 :: real)) range256) \<in>
      set (map (\<lambda>x. 20 / 255 * x + 79) range256)"
    by (rule last_in_set) (simp add: range256_ne)
  ultimately have ends: "1 \<le> hd (map (\<lambda>x. 20 / 255 * x + (79 :: real)) range256) \<and>
      last (map (\<lambda>x. 20 / 255 * x + (79 :: real)) range256) \<le> 99"
    by blast
  have fallback: "method1 (linspace 0 100 256) = Inr (linspace 1 99 256)"
    unfolding linspace_as_line [of 0 100] by (subst method1_rising) simp_all
  have const: "method1 (replicate 256 100) = Inr (replicate 256 99)"
    unfolding constant_as_line [of 100] constant_as_line [of 99]
    by (subst method1_rising) simp_all
  from len trig run ends fallback const show ?thesis by blast
qed

subsection \<open>Method 2\<close>

text \<open>
  \<^verbatim>\<open>_correct_J\<close> accepts a line exactly when it lies within the bounds at every index.
\<close>

lemma no_negative_difference:
  assumes "length xs = length ys"
  shows "filter (\<lambda>x. x < 0) (map2 (-) xs ys) = [] \<longleftrightarrow> (\<forall>i<length ys. ys ! i \<le> (xs ! i :: real))"
proof -
  have "filter (\<lambda>x. x < 0) (map2 (-) xs ys) = [] \<longleftrightarrow>
        (\<forall>i<length (zip xs ys). \<not> (case zip xs ys ! i of (x, y) \<Rightarrow> x - y) < 0)"
    by (simp add: filter_empty_conv all_set_conv_all_nth)
  also have "\<dots> \<longleftrightarrow> (\<forall>i<length ys. ys ! i \<le> xs ! i)"
    using assms by (auto simp: not_less)
  finally show ?thesis .
qed

lemma correct_J'_Some:
  assumes "length low = length line" "length high = length line"
  shows "correct_J' low high line m = Some m2 \<longleftrightarrow>
         m2 = m[0 := line] \<and> (\<forall>i<length line. low ! i \<le> line ! i \<and> line ! i \<le> high ! i)"
proof -
  have up: "filter (\<lambda>x. x < 0) (map2 (-) high line) = [] \<longleftrightarrow> (\<forall>i<length line. line ! i \<le> high ! i)"
    using assms by (intro no_negative_difference) simp
  have lo: "filter (\<lambda>x. x < 0) (map2 (-) line low) = [] \<longleftrightarrow> (\<forall>i<length line. low ! i \<le> line ! i)"
    using no_negative_difference [of line low] assms by simp
  show ?thesis
    unfolding correct_J'_def Let_def add_is_0 length_0_conv up lo by auto
qed

lemma correct_J'_None:
  assumes "length low = length line" "length high = length line"
    and "i < length line" and "\<not> (low ! i \<le> line ! i \<and> line ! i \<le> high ! i)"
  shows "correct_J' low high line m = None"
proof (cases "correct_J' low high line m")
  case None
  then show ?thesis .
next
  case (Some m2)
  then have "\<forall>i<length line. low ! i \<le> line ! i \<and> line ! i \<le> high ! i"
    using assms(1,2) by (subst (asm) correct_J'_Some) simp_all
  with assms(3,4) show ?thesis by blast
qed

text \<open>The four ways through one round of the inner loop.\<close>

lemma search_b_accept:
  assumes "b \<le> max_b"
    and "correct_J' low high (map (\<lambda>x. (slope / 256) * x + b) range256) m = Some m2"
  shows "search_b low high m slope max_b delta_b b = Some (Some m2)"
  using assms by (subst search_b.simps) simp

lemma search_b_next:
  assumes "b \<le> max_b"
    and "correct_J' low high (map (\<lambda>x. (slope / 256) * x + b) range256) m = None"
    and "\<not> (slope / 256 * 255 + b > last high \<or> b > hd high)"
  shows "search_b low high m slope max_b delta_b b =
         search_b low high m slope max_b delta_b (b + delta_b)"
  using assms
  by (subst search_b.simps)
    (simp only: Let_def candidate_hd candidate_last if_True if_False option.case)

lemma search_b_jump:
  assumes "b \<le> max_b"
    and "correct_J' low high (map (\<lambda>x. (slope / 256) * x + b) range256) m = None"
    and "slope / 256 * 255 + b > last high \<or> b > hd high"
  shows "search_b low high m slope max_b delta_b b =
         search_b low high m slope max_b delta_b 100"
  using assms
  by (subst search_b.simps)
    (simp only: Let_def candidate_hd candidate_last if_True if_False option.case)

lemma search_b_end:
  assumes "\<not> b \<le> max_b"
  shows "search_b low high m slope max_b delta_b b = Some None"
  using assms by (subst search_b.simps) simp

text \<open>
  A line that the search returns is one of its candidates, \<open>(slope / 256) x + b\<close>, and
  was accepted by \<^verbatim>\<open>_correct_J\<close>.
\<close>

lemma search_b_found:
  assumes "search_b low high m slope max_b delta_b b = Some (Some m2)"
    and "length low = 256" "length high = 256"
  shows "\<exists>b'. m2 = m[0 := map (\<lambda>x. (slope / 256) * x + b') range256] \<and>
           (\<forall>i<256. low ! i \<le> (slope / 256) * real i + b' \<and> (slope / 256) * real i + b' \<le> high ! i)"
  using assms(2,3)
proof (induction low high m slope max_b delta_b b "Some m2" rule: search_b.raw_induct)
  case (1 search_b low high m slope max_b delta_b b)
  define line where "line = map (\<lambda>x. (slope / 256) * x + b) range256"
  have len: "length line = 256" by (simp add: line_def)
  show ?case
  proof (cases "correct_J' low high line m")
    case None
    with 1(2) have "search_b low high m slope max_b delta_b 100 = Some (Some m2) \<or>
        search_b low high m slope max_b delta_b (b + delta_b) = Some (Some m2)"
      by (auto simp: line_def Let_def split: if_splits)
    then show ?thesis using 1(1) 1(3) 1(4) by blast
  next
    case (Some m2')
    with 1(2) have "m2' = m2" by (auto simp: line_def Let_def split: if_splits)
    with Some have "correct_J' low high line m = Some m2" by simp
    then have "m2 = m[0 := line] \<and> (\<forall>i<length line. low ! i \<le> line ! i \<and> line ! i \<le> high ! i)"
      using 1(3) 1(4) len by (subst (asm) correct_J'_Some) simp_all
    then have "m2 = m[0 := line]" and "\<forall>i<256. low ! i \<le> line ! i \<and> line ! i \<le> high ! i"
      using len by simp_all
    then have "m2 = m[0 := map (\<lambda>x. (slope / 256) * x + b) range256] \<and>
        (\<forall>i<256. low ! i \<le> (slope / 256) * real i + b \<and> (slope / 256) * real i + b \<le> high ! i)"
      unfolding line_def by (simp add: nth_range256)
    then show ?thesis by blast
  qed
qed fact

lemma search_slope_found:
  assumes "search_slope low high m max_b delta_slope delta_b slope = Some (Some m2)"
    and "length low = 256" "length high = 256"
  shows "\<exists>s b. m2 = m[0 := map (\<lambda>x. (s / 256) * x + b) range256] \<and>
           (\<forall>i<256. low ! i \<le> (s / 256) * real i + b \<and> (s / 256) * real i + b \<le> high ! i)"
  using assms(2,3)
proof (induction low high m max_b delta_slope delta_b slope "Some m2" rule: search_slope.raw_induct)
  case (1 search_slope low high m max_b delta_slope delta_b slope)
  from 1(2) obtain found where
    inner: "search_b low high m slope max_b delta_b (hd low) = Some found" and
    rest: "(case found of Some m2 \<Rightarrow> Some (Some m2)
            | None \<Rightarrow> search_slope low high m max_b delta_slope delta_b (slope + delta_slope)) =
           Some (Some m2)"
    by (auto simp: Option.bind_eq_Some_conv split: if_splits)
  show ?case
  proof (cases found)
    case None
    with rest show ?thesis using 1(1) 1(3) 1(4) by simp
  next
    case (Some m2')
    with rest inner have "search_b low high m slope max_b delta_b (hd low) = Some (Some m2)" by simp
    then show ?thesis using search_b_found [OF _ 1(3) 1(4)] by blast
  qed
qed fact

text \<open>
  Claim C3: whenever the search for the second fit returns a trajectory (the second
  value that \<^verbatim>\<open>correct_J\<close> returns is not \<^verbatim>\<open>None\<close>), the trajectory lies within the
  bounds at every index. For arrays \<^verbatim>\<open>low\<close> and \<^verbatim>\<open>high\<close> of 256 bounds and every
  start of the loop: the array returned is \<open>m\<close> with its row 0 replaced, the new row is
  a candidate line \<open>(s / 256) i + b\<close> of 256 values, and \<open>low[i] \<le> m2[0, i] \<le> high[i]\<close>
  at every index \<open>i\<close>; and \<^verbatim>\<open>_correct_J\<close>, which decides it, returns the array with the
  line as row 0 when the line is within the bounds at every index and \<^verbatim>\<open>None\<close> when
  it is not.
\<close>

theorem C3_fit_B_within_bounds:
  assumes "length low = 256" and "length high = 256" and "m \<noteq> []"
  shows "(search_slope low high m max_b delta_slope delta_b slope = Some (Some m2) \<longrightarrow>
            length m2 = length m \<and> tl m2 = tl m \<and> length (m2 ! 0) = 256 \<and>
            (\<exists>s b. m2 ! 0 = map (\<lambda>x. (s / 256) * x + b) range256) \<and>
            (\<forall>i<256. low ! i \<le> m2 ! 0 ! i \<and> m2 ! 0 ! i \<le> high ! i)) \<and>
         (length line = 256 \<longrightarrow>
            correct_J' low high line m =
              (if \<forall>i<256. low ! i \<le> line ! i \<and> line ! i \<le> high ! i then Some (m[0 := line])
               else None))"
proof (intro conjI impI)
  assume "search_slope low high m max_b delta_slope delta_b slope = Some (Some m2)"
  from search_slope_found [OF this assms(1,2)] obtain s b where
    m2: "m2 = m[0 := map (\<lambda>x. (s / 256) * x + b) range256]" and
    within: "\<forall>i<256. low ! i \<le> (s / 256) * real i + b \<and> (s / 256) * real i + b \<le> high ! i"
    by blast
  from assms(3) obtain J rest where m: "m = J # rest" by (cases m) auto
  have row: "m2 ! 0 = map (\<lambda>x. (s / 256) * x + b) range256" unfolding m2 m by simp
  show "length m2 = length m" unfolding m2 by simp
  show "tl m2 = tl m" unfolding m2 m by simp
  show "length (m2 ! 0) = 256" unfolding row by simp
  show "\<exists>s b. m2 ! 0 = map (\<lambda>x. (s / 256) * x + b) range256" using row by blast
  show "\<forall>i<256. low ! i \<le> m2 ! 0 ! i \<and> m2 ! 0 ! i \<le> high ! i"
    unfolding row using within by (simp add: nth_range256)
next
  assume len: "length line = 256"
  show "correct_J' low high line m =
      (if \<forall>i<256. low ! i \<le> line ! i \<and> line ! i \<le> high ! i then Some (m[0 := line]) else None)"
  proof (cases "\<forall>i<256. low ! i \<le> line ! i \<and> line ! i \<le> high ! i")
    case True
    then have "correct_J' low high line m = Some (m[0 := line])"
      using assms(1,2) len by (subst correct_J'_Some) simp_all
    with True show ?thesis by simp
  next
    case False
    then obtain i where "i < 256" "\<not> (low ! i \<le> line ! i \<and> line ! i \<le> high ! i)" by blast
    then have "correct_J' low high line m = None"
      using assms(1,2) len by (intro correct_J'_None [of low line high i]) simp_all
    with False show ?thesis by simp
  qed
qed

text \<open>
  The search at the bounds \<open>dip_low\<close> and \<open>dip_high\<close>, started as \<^verbatim>\<open>correct_J\<close> starts
  it for a trajectory that does not fall: \<open>slope = high[-1] - low[0] = 2\<close>,
  \<open>max_b = 12\<close>, steps \<open>-1\<close> and 1. The line of slope 2 from 10 is 11 at index 128, above
  the bound 10.6, and ends at 11.99: the intercept moves to 11. That line is too high as
  well and ends above 12: the intercept jumps to 100 and the inner loop ends. The line of
  slope 1 from 10 is 10.5 at index 128 and is accepted.
\<close>

lemma length_dip [simp]: "length dip_low = 256" "length dip_high = 256"
  by (simp_all add: dip_low_def dip_high_def)

lemma nth_dip:
  "i < 256 \<Longrightarrow> dip_low ! i = 10"
  "i < 256 \<Longrightarrow> dip_high ! i = (if i = 128 then 53 / 5 else 12)"
  by (simp_all add: dip_low_def dip_high_def nth_list_update)

lemma ends_dip: "hd dip_low = 10" "hd dip_high = 12" "last dip_high = 12"
proof -
  show "hd dip_low = 10" by (simp add: dip_low_def hd_replicate)
  have "hd dip_high = dip_high ! 0" by (rule hd_conv_nth) (simp add: dip_high_def)
  then show "hd dip_high = 12" by (simp add: nth_dip)
  have "last dip_high = dip_high ! (length dip_high - 1)"
    by (rule last_conv_nth) (simp add: dip_high_def)
  then show "last dip_high = 12" by (simp add: nth_dip)
qed

lemma dip_rejects:
  assumes "53 / 5 < s / 256 * 128 + b"
  shows "correct_J' dip_low dip_high (map (\<lambda>x. (s / 256) * x + b) range256) m = None"
proof (rule correct_J'_None [where i = 128])
  show "\<not> (dip_low ! 128 \<le> map (\<lambda>x. (s / 256) * x + b) range256 ! 128 \<and>
      map (\<lambda>x. (s / 256) * x + b) range256 ! 128 \<le> dip_high ! 128)"
    using assms by (simp add: nth_dip nth_range256)
qed simp_all

lemma dip_accepts:
  "correct_J' dip_low dip_high (map (\<lambda>x. (1 / 256) * x + 10) range256) m =
     Some (m[0 := map (\<lambda>x. (1 / 256) * x + 10) range256])"
proof -
  have "dip_low ! i \<le> map (\<lambda>x. (1 / 256) * x + 10) range256 ! i \<and>
      map (\<lambda>x. (1 / 256) * x + 10) range256 ! i \<le> dip_high ! i" if "i < 256" for i
  proof -
    have "real i \<le> 255" using that by simp
    moreover have "real i = 128" if "i = 128" using that by simp
    ultimately show ?thesis using that by (auto simp: nth_dip nth_range256)
  qed
  then show ?thesis by (subst correct_J'_Some) simp_all
qed

lemma dip_search:
  "search_slope dip_low dip_high m 12 (- 1) 1 2 =
     Some (Some (m[0 := map (\<lambda>x. (1 / 256) * x + 10) range256]))"
proof -
  have rej10: "correct_J' dip_low dip_high (map (\<lambda>x. (2 / 256) * x + 10) range256) m = None"
    by (rule dip_rejects) simp
  have rej11: "correct_J' dip_low dip_high (map (\<lambda>x. (2 / 256) * x + 11) range256) m = None"
    by (rule dip_rejects) simp
  have b10: "search_b dip_low dip_high m 2 12 1 10 = search_b dip_low dip_high m 2 12 1 (10 + 1)"
    by (rule search_b_next [OF _ rej10]) (simp_all add: ends_dip)
  have b11: "search_b dip_low dip_high m 2 12 1 11 = search_b dip_low dip_high m 2 12 1 100"
    by (rule search_b_jump [OF _ rej11]) (simp_all add: ends_dip)
  have b100: "search_b dip_low dip_high m 2 12 1 100 = Some None"
    by (rule search_b_end) simp
  have inner2: "search_b dip_low dip_high m 2 12 1 10 = Some None"
    using b10 b11 b100 by simp
  have inner1: "search_b dip_low dip_high m 1 12 1 10 =
      Some (Some (m[0 := map (\<lambda>x. (1 / 256) * x + 10) range256]))"
    by (rule search_b_accept [OF _ dip_accepts]) simp
  have step1: "search_slope dip_low dip_high m 12 (- 1) 1 1 =
      Some (Some (m[0 := map (\<lambda>x. (1 / 256) * x + 10) range256]))"
    by (subst search_slope.simps) (simp add: ends_dip inner1)
  have "search_slope dip_low dip_high m 12 (- 1) 1 2 =
      search_slope dip_low dip_high m 12 (- 1) 1 (2 + - 1)"
    by (subst search_slope.simps) (simp add: ends_dip inner2)
  with step1 show ?thesis by simp
qed

text \<open>
  Claim C3 at this search, for a colormap with the constant lightness 11: the line
  returned is 10.5 at index 128, between the bounds 10 and 10.6, and
  \<^verbatim>\<open>_correct_J\<close> rejects the constant line 11, which is above the bound there.
\<close>

theorem C3_fit_B_within_bounds_witness:
  "search_slope dip_low dip_high [replicate 256 11, replicate 256 0, replicate 256 0] 12 (- 1) 1 2 =
     Some (Some [map (\<lambda>x. (1 / 256) * x + 10) range256, replicate 256 0, replicate 256 0]) \<and>
   [map (\<lambda>x. (1 / 256) * x + 10) range256, replicate 256 0, replicate 256 0] ! 0 ! 128 = 21 / 2 \<and>
   dip_low ! 128 = 10 \<and> dip_high ! 128 = 53 / 5 \<and>
   dip_low ! 128 \<le> [map (\<lambda>x. (1 / 256) * x + 10) range256, replicate 256 0, replicate 256 0] ! 0 ! 128 \<and>
   [map (\<lambda>x. (1 / 256) * x + 10) range256, replicate 256 0, replicate 256 0] ! 0 ! 128 \<le> dip_high ! 128 \<and>
   correct_J' dip_low dip_high (replicate 256 11)
     [replicate 256 11, replicate 256 0, replicate 256 0] = None"
proof -
  define m :: "real list list" where "m = [replicate 256 11, replicate 256 0, replicate 256 0]"
  define m2 :: "real list list" where
    "m2 = [map (\<lambda>x. (1 / 256) * x + 10) range256, replicate 256 0, replicate 256 0]"
  have run: "search_slope dip_low dip_high m 12 (- 1) 1 2 = Some (Some m2)"
    using dip_search [of m] by (simp add: m_def m2_def)
  have ne: "m \<noteq> []" by (simp add: m_def)
  note C3 = C3_fit_B_within_bounds [of dip_low dip_high m 12 "- 1" 1 2 m2 "replicate 256 11",
      OF length_dip ne]
  from C3 run have "\<forall>i<256. dip_low ! i \<le> m2 ! 0 ! i \<and> m2 ! 0 ! i \<le> dip_high ! i" by blast
  then have within: "dip_low ! 128 \<le> m2 ! 0 ! 128 \<and> m2 ! 0 ! 128 \<le> dip_high ! 128" by simp
  have "\<not> (\<forall>i<256. dip_low ! i \<le> replicate 256 11 ! i \<and> replicate 256 11 ! i \<le> dip_high ! i)"
  proof
    assume "\<forall>i<256. dip_low ! i \<le> replicate 256 11 ! i \<and> replicate 256 11 ! i \<le> dip_high ! i"
    then have "replicate 256 11 ! 128 \<le> dip_high ! 128" by simp
    then show False by (simp add: nth_dip)
  qed
  with C3 have rej: "correct_J' dip_low dip_high (replicate 256 11) m = None" by simp
  have val: "m2 ! 0 ! 128 = 21 / 2" by (simp add: m2_def nth_range256)
  have bounds: "dip_low ! 128 = 10" "dip_high ! 128 = 53 / 5" by (simp_all add: nth_dip)
  from run within rej val bounds show ?thesis unfolding m_def m2_def by blast
qed

subsection \<open>The function as written\<close>

text \<open>
  \<^verbatim>\<open>correct_J\<close> calls \<^verbatim>\<open>find_J_bounds\<close> on the one-dimensional array \<^verbatim>\<open>m[:, i]\<close>, where
  \<^verbatim>\<open>m.shape[1]\<close> raises IndexError (the comment in \<^verbatim>\<open>find_J_bounds\<close> suspects it). So
  at the first column the function raises, before any fit: it returns on no array.
\<close>

lemma correct_J_raises:
  assumes "0 < ncols m"
  shows "correct_J cv m delta_slope delta_b = Some (Inl IndexError)"
proof -
  have "[0..<ncols m] = 0 # [1..<ncols m]" using assms by (simp add: upt_conv_Cons)
  then show ?thesis
    by (simp add: correct_J_def find_J_bounds_def)
qed

lemma correct_J_never_returns:
  "correct_J cv m delta_slope delta_b \<noteq> Some (Inr r)"
proof (cases "0 < ncols m")
  case True
  then show ?thesis by (simp add: correct_J_raises)
next
  case False
  then have "ncols m = 0" by simp
  then show ?thesis
    by (cases m) (simp_all add: correct_J_def method1_def)
qed

text \<open>
  Claim C6: for the constant trajectory \<open>J = [10, \<dots>, 10]\<close> over 256 points,
  \<^verbatim>\<open>correct_J\<close> returns the constant trajectory 10 as the first fit and \<^verbatim>\<open>None\<close> as
  the second. It returns nothing: for every converter, whatever the rows \<^verbatim>\<open>a\<close> and
  \<^verbatim>\<open>b\<close> and the two steps, the call raises IndexError while it collects the bounds.
\<close>

theorem C6_constant_trajectory_raises:
  "correct_J cv (replicate 256 10 # rest) delta_slope delta_b = Some (Inl IndexError)"
  by (rule correct_J_raises) simp

text \<open>
  Claim C4: on every input with no feasible line the search for the second fit ends and
  \<^verbatim>\<open>correct_J\<close> returns \<^verbatim>\<open>None\<close> for it. On the colormap of constant lightness 50 with
  \<open>a = b = 200\<close> at every point, with a converter under which no colour is displayable
  (so that no lightness and no line is feasible), \<^verbatim>\<open>correct_J\<close> raises IndexError; and
  on no colormap, with no converter, does it return \<^verbatim>\<open>None\<close> as the second fit.
\<close>

theorem C4_no_feasible_line_raises:
  "\<not> find_J_bounds' out_of_gamut j a b \<and>
   correct_J out_of_gamut [replicate 256 50, replicate 256 200, replicate 256 200] 1 1 =
     Some (Inl IndexError) \<and>
   correct_J cv m delta_slope delta_b \<noteq> Some (Inr (m1, None))"
proof (intro conjI)
  show "\<not> find_J_bounds' out_of_gamut j a b" by (rule out_of_gamut_never)
  show "correct_J out_of_gamut [replicate 256 50, replicate 256 200, replicate 256 200] 1 1 =
      Some (Inl IndexError)"
    by (rule correct_J_raises) simp
  show "correct_J cv m delta_slope delta_b \<noteq> Some (Inr (m1, None))"
    by (rule correct_J_never_returns)
qed

subsection \<open>The search loop on its own\<close>

text \<open>
  The outer loop of the search runs \<^verbatim>\<open>while slope != 0\<close>. Given arrays of bounds that
  no candidate line satisfies (the lower bound 50 at index 0 and 60 at index 1, the upper
  bound 50 at index 0 and 50.5 at the last index) and started as \<^verbatim>\<open>correct_J\<close> would
  start it, from the slope \<open>high[-1] - low[0] = 0.5\<close> in steps of \<open>-1\<close>, the slope takes
  the values 0.5, -0.5, -1.5, \<dots> and never meets 0: the loop does not end.
\<close>

lemma half_minus_nat_nonzero: "1 / 2 - real k \<noteq> 0"
proof
  assume "1 / 2 - real k = 0"
  then have "real (2 * k) = real 1" by simp
  then have "2 * k = 1" by (simp only: of_nat_eq_iff)
  then show False by arith
qed

lemma search_b_kink:
  assumes len: "length low = 256" "length high = 256"
    and low: "hd low = 50" "low ! 1 = 60" and high: "hd high = 50" "last high = 101 / 2"
    and slope: "slope \<le> 1 / 2"
  shows "search_b low high m slope (101 / 2) 1 50 = Some None"
proof -
  have none: "correct_J' low high (map (\<lambda>x. (slope / 256) * x + 50) range256) m = None"
  proof (rule correct_J'_None [where i = 1])
    show "\<not> (low ! 1 \<le> map (\<lambda>x. (slope / 256) * x + 50) range256 ! 1 \<and>
        map (\<lambda>x. (slope / 256) * x + 50) range256 ! 1 \<le> high ! 1)"
      using low slope by (simp add: nth_range256)
  qed (simp_all add: len)
  have "search_b low high m slope (101 / 2) 1 50 = search_b low high m slope (101 / 2) 1 (50 + 1)"
    using _ none
  proof (rule search_b_next)
    show "\<not> (slope / 256 * 255 + 50 > last high \<or> 50 > hd high)"
      using slope high by simp
  qed simp
  also have "\<dots> = Some None" by (rule search_b_end) simp
  finally show ?thesis .
qed

lemma search_slope_kink_Some:
  assumes "search_slope low high m max_b delta_slope delta_b slope = Some r"
  shows "length low = 256 \<longrightarrow> length high = 256 \<longrightarrow> hd low = 50 \<longrightarrow> low ! 1 = 60 \<longrightarrow>
         hd high = 50 \<longrightarrow> last high = 101 / 2 \<longrightarrow> max_b = 101 / 2 \<longrightarrow> delta_slope = - 1 \<longrightarrow>
         delta_b = 1 \<longrightarrow> (\<forall>k::nat. slope \<noteq> 1 / 2 - real k)"
proof (induction low high m max_b delta_slope delta_b slope r rule: search_slope.raw_induct)
  case (1 search_slope low high m max_b delta_slope delta_b slope r)
  show ?case
  proof (intro impI allI notI)
    fix k :: nat
    assume a: "length low = 256" "length high = 256" "hd low = 50" "low ! 1 = 60"
      "hd high = 50" "last high = 101 / 2" "max_b = 101 / 2" "delta_slope = - 1" "delta_b = 1"
      and s: "slope = 1 / 2 - real k"
    have nz: "slope \<noteq> 0" unfolding s by (rule half_minus_nat_nonzero)
    have le: "slope \<le> 1 / 2" unfolding s by simp
    have inner: "search_b low high m slope (101 / 2) 1 50 = Some None"
      using a(1-6) le by (rule search_b_kink)
    have inner': "search_b low high m slope max_b delta_b (hd low) = Some None"
      unfolding a(3) a(7) a(9) by (rule inner)
    from 1(2) nz inner' have next_call:
      "search_slope low high m max_b delta_slope delta_b (slope + delta_slope) = Some r"
      by simp
    have "slope + delta_slope = 1 / 2 - real (Suc k)" using s a(8) by simp
    with 1(1) [OF next_call] a show False by blast
  qed
qed fact

lemma search_slope_never_ends:
  assumes "length low = 256" "length high = 256" "hd low = 50" "low ! 1 = 60"
    "hd high = 50" "last high = 101 / 2"
  shows "search_slope low high m (101 / 2) (- 1) 1 (1 / 2) = None"
proof (cases "search_slope low high m (101 / 2) (- 1) 1 (1 / 2)")
  case None
  then show ?thesis .
next
  case (Some r)
  from search_slope_kink_Some [OF Some] assms have "(1 / 2 :: real) \<noteq> 1 / 2 - real (0 :: nat)"
    by blast
  then show ?thesis by simp
qed

section \<open>Properties of the perceptual linearizer\<close>

lemma find_distance_pair:
  "find_distance [a, b] [c, d] = Float (sqrt ((c - a)\<^sup>2 + (d - b)\<^sup>2))"
  by (simp add: find_distance_def upt_rec)

lemma curve_distance_eq:
  "curve_distance long_a long_b i j =
     sqrt ((long_a ! j - long_a ! i)\<^sup>2 + (long_b ! j - long_b ! i)\<^sup>2)"
  by (simp add: curve_distance_def find_distance_pair)

text \<open>
  Every assignment of the loop writes row 1 or 2 at an index from 1 to 254, in the copy
  only; so the loop keeps the frame and every other array of the store.
\<close>

lemma same_frame_refl: "same_frame a a"
  by (simp add: same_frame_def)

lemma same_frame_update:
  assumes "same_frame inp out" and "0 < col" and "col < 255" and "row = 1 \<or> row = 2"
  shows "same_frame inp (out[row := (out ! row)[col := v]])"
proof -
  have len: "length out = length inp" and lens: "map length out = map length inp"
    using assms(1) by (simp_all add: same_frame_def)
  have "map length (out[row := (out ! row)[col := v]]) = map length out"
    by (cases "row < length out") (auto simp: list_eq_iff_nth_eq nth_list_update)
  moreover have "(out[row := (out ! row)[col := v]]) ! k = out ! k" if "k \<noteq> 1" "k \<noteq> 2" for k
    using that assms(4) by auto
  moreover have "(out[row := (out ! row)[col := v]]) ! k ! 0 = out ! k ! 0 \<and>
      (out[row := (out ! row)[col := v]]) ! k ! 255 = out ! k ! 255" if "k < length out" for k
    using that assms(2,3) by (cases "k = row") simp_all
  ultimately show ?thesis
    using assms(1) unfolding same_frame_def by (simp add: len)
qed

lemma setitem_frame:
  assumes "jab < length h" and "same_frame inp (h ! jab)" and "0 < col" and "col < 255"
    and "row = 1 \<or> row = 2"
  shows "length (setitem h jab row col v) = length h \<and>
         (\<forall>q. q \<noteq> jab \<longrightarrow> setitem h jab row col v ! q = h ! q) \<and>
         same_frame inp (setitem h jab row col v ! jab)"
  using assms same_frame_update [of inp "h ! jab" col row v]
  by (simp add: setitem_def)

lemma walk_stop:
  "\<not> (jab_ind < 254 \<and> long_ind + 1 < l) \<Longrightarrow>
   walk long_a long_b d l jab h jab_ind long_ind d_this = h"
  by (subst walk.simps) (simp only: if_False)

lemma walk_frame:
  assumes "jab < length h" and "same_frame inp (h ! jab)"
  shows "length (walk long_a long_b d l jab h jab_ind long_ind d_this) = length h \<and>
         (\<forall>q. q \<noteq> jab \<longrightarrow> walk long_a long_b d l jab h jab_ind long_ind d_this ! q = h ! q) \<and>
         same_frame inp (walk long_a long_b d l jab h jab_ind long_ind d_this ! jab)"
  using assms
proof (induction long_a long_b d l jab h jab_ind long_ind d_this rule: walk.induct)
  case (1 long_a long_b d l jab h jab_ind long_ind d_this)
  show ?case
  proof (cases "jab_ind < 254 \<and> long_ind + 1 < l")
    case False
    then have "walk long_a long_b d l jab h jab_ind long_ind d_this = h"
      by (rule walk_stop)
    then show ?thesis using "1.prems" by simp
  next
    case go: True
    define d1 where "d1 = d_this + curve_distance long_a long_b (long_ind - 1) long_ind"
    define commit where "commit \<longleftrightarrow>
        \<bar>d * real (jab_ind + 1) - d1\<bar>
          < \<bar>d * real (jab_ind + 1) - (d1 + curve_distance long_a long_b long_ind (long_ind + 1))\<bar>"
    show ?thesis
    proof (cases commit)
      case True
      define h1 where "h1 = setitem h jab 1 (jab_ind + 1) (long_a ! long_ind)"
      define h2 where "h2 = setitem h1 jab 2 (jab_ind + 1) (long_b ! long_ind)"
      have col: "0 < jab_ind + 1" "jab_ind + 1 < 255" using go by simp_all
      have f1: "length h1 = length h \<and> (\<forall>q. q \<noteq> jab \<longrightarrow> h1 ! q = h ! q) \<and> same_frame inp (h1 ! jab)"
        unfolding h1_def using "1.prems" col by (intro setitem_frame) simp_all
      then have f2: "length h2 = length h1 \<and> (\<forall>q. q \<noteq> jab \<longrightarrow> h2 ! q = h1 ! q) \<and>
          same_frame inp (h2 ! jab)"
        unfolding h2_def using "1.prems"(1) col by (intro setitem_frame) simp_all
      have step: "walk long_a long_b d l jab h jab_ind long_ind d_this =
          walk long_a long_b d l jab h2 (jab_ind + 1) (long_ind + 1) d1"
        using go True
        by (subst walk.simps) (simp add: commit_def d1_def h1_def h2_def)
      have IH: "length (walk long_a long_b d l jab h2 (jab_ind + 1) (long_ind + 1) d1) = length h2 \<and>
          (\<forall>q. q \<noteq> jab \<longrightarrow> walk long_a long_b d l jab h2 (jab_ind + 1) (long_ind + 1) d1 ! q = h2 ! q) \<and>
          same_frame inp (walk long_a long_b d l jab h2 (jab_ind + 1) (long_ind + 1) d1 ! jab)"
        unfolding h2_def h1_def d1_def
      proof (rule "1.IH"(1))
        show "jab_ind < 254 \<and> long_ind + 1 < l" by (rule go)
        show "\<bar>d * real (jab_ind + 1) -
                (d_this + curve_distance long_a long_b (long_ind - 1) long_ind)\<bar>
              < \<bar>d * real (jab_ind + 1) -
                 (d_this + curve_distance long_a long_b (long_ind - 1) long_ind
                    + curve_distance long_a long_b long_ind (long_ind + 1))\<bar>"
          using True by (simp add: commit_def d1_def)
        show "jab < length (setitem (setitem h jab 1 (jab_ind + 1) (long_a ! long_ind)) jab 2
            (jab_ind + 1) (long_b ! long_ind))"
          using f1 f2 "1.prems"(1) by (simp add: h1_def h2_def)
        show "same_frame inp (setitem (setitem h jab 1 (jab_ind + 1) (long_a ! long_ind)) jab 2
            (jab_ind + 1) (long_b ! long_ind) ! jab)"
          using f2 by (simp add: h1_def h2_def)
      qed
      show ?thesis unfolding step using IH f1 f2 by simp
    next
      case False
      have step: "walk long_a long_b d l jab h jab_ind long_ind d_this =
          walk long_a long_b d l jab h jab_ind (long_ind + 1) d1"
        using go False
        by (subst walk.simps) (simp add: commit_def d1_def)
      have IH: "length (walk long_a long_b d l jab h jab_ind (long_ind + 1) d1) = length h \<and>
          (\<forall>q. q \<noteq> jab \<longrightarrow> walk long_a long_b d l jab h jab_ind (long_ind + 1) d1 ! q = h ! q) \<and>
          same_frame inp (walk long_a long_b d l jab h jab_ind (long_ind + 1) d1 ! jab)"
        unfolding d1_def
      proof (rule "1.IH"(2))
        show "jab_ind < 254 \<and> long_ind + 1 < l" by (rule go)
        show "\<not> \<bar>d * real (jab_ind + 1) -
                (d_this + curve_distance long_a long_b (long_ind - 1) long_ind)\<bar>
              < \<bar>d * real (jab_ind + 1) -
                 (d_this + curve_distance long_a long_b (long_ind - 1) long_ind
                    + curve_distance long_a long_b long_ind (long_ind + 1))\<bar>"
          using False by (simp add: commit_def d1_def)
        show "jab < length h" by (rule "1.prems"(1))
        show "same_frame inp (h ! jab)" by (rule "1.prems"(2))
      qed
      show ?thesis unfolding step using IH by simp
    qed
  qed
qed

lemma same_frame_rows:
  assumes "same_frame inp out" and "k < length inp"
  shows "length (out ! k) = length (inp ! k)"
proof -
  have "map length out ! k = map length inp ! k" using assms(1) by (simp add: same_frame_def)
  moreover have "k < length out" using assms by (simp add: same_frame_def)
  ultimately show ?thesis using assms(2) by simp
qed

text \<open>
  Claim C9: on a J'a'b' array of the expected length (at least the three rows, each of 256
  entries) \<^verbatim>\<open>make_linear\<close> returns, for every \<open>l\<close>, a new array (the reference
  \<open>length h\<close>, which the store did not hold): every array the store held, the argument
  among them, is unchanged; the result has the rows and the 256 columns of the argument;
  its row 0 (\<^verbatim>\<open>J\<close>) is the argument's; the first and the last entry of every row are the
  argument's; and every row but \<^verbatim>\<open>a\<close> and \<^verbatim>\<open>b\<close> is the argument's.
\<close>

theorem C9_make_linear_frame:
  assumes r: "r < length h" and rows: "3 \<le> length (h ! r)"
    and cols: "\<forall>row\<in>set (h ! r). length row = 256"
  shows "\<exists>h'. make_linear h r l = Inr (h', length h) \<and>
           length h' = length h + 1 \<and> take (length h) h' = h \<and>
           length (h' ! length h) = length (h ! r) \<and>
           (\<forall>k<length (h ! r). length (h' ! length h ! k) = 256) \<and>
           h' ! length h ! 0 = h ! r ! 0 \<and>
           (\<forall>k<length (h ! r). h' ! length h ! k ! 0 = h ! r ! k ! 0 \<and>
                               h' ! length h ! k ! 255 = h ! r ! k ! 255) \<and>
           (\<forall>k<length (h ! r). k \<noteq> 1 \<longrightarrow> k \<noteq> 2 \<longrightarrow> h' ! length h ! k = h ! r ! k)"
proof -
  define inp where "inp = h ! r"
  define h1 where "h1 = h @ [inp]"
  define jab where "jab = length h"
  define new_x where "new_x = linspace 0 255 l"
  define long_a where "long_a = map (interp256 (inp ! 1)) new_x"
  define long_b where "long_b = map (interp256 (inp ! 2)) new_x"
  define d where "d = fold (\<lambda>i total. total + curve_distance long_a long_b (i - 1) i) [1..<l] 0 / 255"
  define h' where "h' = walk long_a long_b d l jab h1 0 1 0"
  have at: "h1 ! jab = inp" by (simp add: h1_def jab_def)
  have len: "length (inp ! k) = 256" if "k < length inp" for k
    using cols that by (simp add: inp_def)
  have l1: "length (inp ! 1) = 256" and l2: "length (inp ! 2) = 256"
    using rows by (intro len; simp add: inp_def)+
  have res: "make_linear h r l = Inr (h', length h)"
    using rows l1 l2
    by (simp add: make_linear_def np_copy_def Let_def h'_def d_def long_a_def long_b_def
        new_x_def at [unfolded h1_def jab_def] h1_def jab_def inp_def)
  have "jab < length h1" by (simp add: h1_def jab_def)
  moreover have "same_frame inp (h1 ! jab)" unfolding at by (rule same_frame_refl)
  ultimately have fr: "length h' = length h1" "\<forall>q. q \<noteq> jab \<longrightarrow> h' ! q = h1 ! q"
    "same_frame inp (h' ! jab)"
    unfolding h'_def using walk_frame [of jab h1 inp long_a long_b d l 0 1 0] by simp_all
  have size: "length h' = length h + 1" using fr(1) by (simp add: h1_def)
  have old: "take (length h) h' = h"
  proof (rule nth_equalityI)
    show "length (take (length h) h') = length h" using size by simp
    fix i assume "i < length (take (length h) h')"
    then have i: "i < length h" by simp
    then have "h' ! i = h1 ! i" using fr(2) by (simp add: jab_def)
    with i show "take (length h) h' ! i = h ! i" by (simp add: h1_def nth_append)
  qed
  have sf: "length (h' ! jab) = length inp"
    "\<forall>k<length inp. k \<noteq> 1 \<longrightarrow> k \<noteq> 2 \<longrightarrow> h' ! jab ! k = inp ! k"
    "\<forall>k<length inp. h' ! jab ! k ! 0 = inp ! k ! 0 \<and> h' ! jab ! k ! 255 = inp ! k ! 255"
    using fr(3) by (simp_all add: same_frame_def)
  have rowlen: "\<forall>k<length inp. length (h' ! jab ! k) = 256"
    using same_frame_rows [OF fr(3)] len by simp
  have "0 < length inp" using rows unfolding inp_def by linarith
  then have J: "h' ! jab ! 0 = inp ! 0" using sf(2) by auto
  show ?thesis
    using res size old sf rowlen J unfolding jab_def inp_def by blast
qed

text \<open>The theorem at a store that holds one colormap of constant colour, and \<open>l = 3\<close>.\<close>

theorem C9_make_linear_frame_witness:
  "\<exists>h'. make_linear [[replicate 256 50, replicate 256 0, replicate 256 0]] 0 3 = Inr (h', 1) \<and>
     length h' = 2 \<and> take 1 h' = [[replicate 256 50, replicate 256 0, replicate 256 0]] \<and>
     length (h' ! 1) = 3 \<and> h' ! 1 ! 0 = replicate 256 50"
  using C9_make_linear_frame [of 0 "[[replicate 256 50, replicate 256 0, replicate 256 0]]" 3]
  by auto

end
